theory Spec2Isabelle
  imports Complex_Main
begin

section \<open>Cookie bowl physics: a shallow embedding of cookie\_defender\_bowl.py\<close>

text \<open>
  Python floats are modelled as mathematical reals (\<^typ>\<open>real\<close>): rounding, infinities
  and NaN are outside the model. Every call of \<open>random.random()\<close> is a parameter of the
  function that makes it (a draw \<open>u\<close> with \<open>0 \<le> u < 1\<close>), and
  \<open>random.uniform(a, b)\<close> is \<open>a + (b - a) * u\<close> as in CPython. Tk widgets and canvas
  drawing are not modelled; the canvas item ids a cookie stores are parameters of the
  spawn. The record fields \<open>r\<close>, \<open>x\<close>, \<open>y\<close> of \<open>CookieBody\<close> and \<open>a\<close>, \<open>b\<close> of the collider
  are named \<open>radius\<close>, \<open>pos_x\<close>, \<open>pos_y\<close>, \<open>axis_a\<close>, \<open>axis_b\<close>, since one-letter
  constants would capture the variables of every statement.

  The arithmetic of the model is exact, that of the program is rounded to double
  precision. A comparison that holds with equality in the model can go either way in
  the program. So containment after the boundary collision is stated with a tolerance,
  and the number of cookies the automatic drop asks for over a sequence of frames is
  stated up to one.
\<close>

subsection \<open>Tuning constants\<close>

definition GRAVITY_AIR :: real where "GRAVITY_AIR = 1750"
definition GRAVITY_WATER :: real where "GRAVITY_WATER = 720"
definition BOWL_RESTITUTION :: real where "BOWL_RESTITUTION = 45 / 100"
definition COOKIE_RESTITUTION :: real where "COOKIE_RESTITUTION = 10 / 100"
definition FRICTION_AIR :: real where "FRICTION_AIR = 985 / 1000"
definition FRICTION_WATER :: real where "FRICTION_WATER = 965 / 1000"
definition MAX_COOKIES :: nat where "MAX_COOKIES = 260"
definition SLEEP_SPEED :: real where "SLEEP_SPEED = 22"
definition SLEEP_FRAMES :: int where "SLEEP_FRAMES = 18"
definition COLLISION_PASSES :: nat where "COLLISION_PASSES = 2"
definition SUBSTEPS :: nat where "SUBSTEPS = 2"
definition OVERFLOW_AT :: real where "OVERFLOW_AT = 95 / 100"
definition HARD_STOP_AT :: real where "HARD_STOP_AT = 110 / 100"
definition WOBBLE_ACCEL :: real where "WOBBLE_ACCEL = 120"
definition WOBBLE_FREQ_MIN :: real where "WOBBLE_FREQ_MIN = 6 / 10"
definition WOBBLE_FREQ_MAX :: real where "WOBBLE_FREQ_MAX = 16 / 10"
definition WOBBLE_DAMP :: real where "WOBBLE_DAMP = 10 / 100"
definition MAX_DROPS_PER_TICK :: nat where "MAX_DROPS_PER_TICK = 6"

definition COLORS :: "string list" where
  "COLORS = [''green'', ''blue'', ''yellow'', ''red'', ''purple'', ''orange'',
             ''pink'', ''brown'', ''black'', ''white'', ''cyan'', ''magenta'']"

definition tau :: real where "tau = 2 * pi"

subsection \<open>Data\<close>

record CookieBody =
  color_name :: string
  radius :: real
  pos_x :: real
  pos_y :: real
  vx :: real
  vy :: real
  item_id :: int
  shadow_id :: int
  highlight_id :: int
  asleep :: bool
  sleep_counter :: int
  underwater :: bool
  wobble_phase :: real
  wobble_freq :: real

record EllipseBowlCollider =
  cx :: real
  cy :: real
  axis_a :: real
  axis_b :: real
  rim_y :: real
  rim_left :: real
  rim_right :: real
  bowl_area :: real

datatype py_error = ZeroDivisionError | ValueError

subsection \<open>Arithmetic helpers\<close>

definition clamp :: "real \<Rightarrow> real \<Rightarrow> real \<Rightarrow> real" where
  "clamp v lo hi = (if v < lo then lo else if v > hi then hi else v)"

definition hypot :: "real \<Rightarrow> real \<Rightarrow> real" where
  "hypot p q = sqrt (p * p + q * q)"

text \<open>\<open>int(x)\<close> on a float truncates towards zero.\<close>

definition py_int :: "real \<Rightarrow> int" where
  "py_int v = (if 0 \<le> v then \<lfloor>v\<rfloor> else \<lceil>v\<rceil>)"

text \<open>\<open>/\<close> raises on a zero divisor, \<open>math.sqrt\<close> on a negative argument.\<close>

definition py_div :: "real \<Rightarrow> real \<Rightarrow> py_error + real" where
  "py_div p q = (if q = 0 then Inl ZeroDivisionError else Inr (p / q))"

definition py_sqrt :: "real \<Rightarrow> py_error + real" where
  "py_sqrt v = (if v < 0 then Inl ValueError else Inr (sqrt v))"

definition uniform :: "real \<Rightarrow> real \<Rightarrow> real \<Rightarrow> real" where
  "uniform lo hi u = lo + (hi - lo) * u"

subsection \<open>EllipseBowlCollider\<close>

definition is_inside_point :: "EllipseBowlCollider \<Rightarrow> real \<Rightarrow> real \<Rightarrow> bool" where
  "is_inside_point col px py =
     (let dx = (px - cx col) / axis_a col;
          dy = (py - cy col) / axis_b col
      in dx * dx + dy * dy \<le> 1 \<and> py \<ge> rim_y col)"

definition recalc_rim :: "EllipseBowlCollider \<Rightarrow> EllipseBowlCollider" where
  "recalc_rim col =
     (let dy = rim_y col - cy col;
          t = 1 - (dy * dy) / (axis_b col * axis_b col)
      in if t \<le> 0
         then col\<lparr>rim_left := cx col - axis_a col * (5 / 100),
                  rim_right := cx col + axis_a col * (5 / 100)\<rparr>
         else let dx = axis_a col * sqrt t
              in col\<lparr>rim_left := cx col - dx, rim_right := cx col + dx\<rparr>)"

definition recalc_area :: "EllipseBowlCollider \<Rightarrow> EllipseBowlCollider" where
  "recalc_area col =
     (let samples_x = (140::nat);
          samples_y = (180::nat);
          x0 = cx col - axis_a col;
          x1 = cx col + axis_a col;
          y0 = rim_y col;
          y1 = cy col + axis_b col;
          dx = (x1 - x0) / real samples_x;
          dy = (y1 - y0) / real samples_y;
          inside = length (filter
             (\<lambda>(iy, ix). is_inside_point col (x0 + (real ix + 1 / 2) * dx)
                                             (y0 + (real iy + 1 / 2) * dy))
             (List.product [0..<samples_y] [0..<samples_x]));
          total = samples_x * samples_y;
          rect_area = (x1 - x0) * (y1 - y0)
      in col\<lparr>bowl_area := max 1 (rect_area * (real inside / real total))\<rparr>)"

definition EllipseBowlCollider_init ::
  "real \<Rightarrow> real \<Rightarrow> real \<Rightarrow> real \<Rightarrow> real \<Rightarrow> EllipseBowlCollider" where
  "EllipseBowlCollider_init cx0 cy0 a0 b0 rim0 =
     recalc_area (recalc_rim
       \<lparr>cx = cx0, cy = cy0, axis_a = a0, axis_b = b0, rim_y = rim0,
        rim_left = cx0 - a0 * (3 / 10), rim_right = cx0 + a0 * (3 / 10),
        bowl_area = 1\<rparr>)"

definition opening_clamp_x :: "EllipseBowlCollider \<Rightarrow> real \<Rightarrow> real \<Rightarrow> real" where
  "opening_clamp_x col px pr = clamp px (rim_left col + pr + 6) (rim_right col - pr - 6)"

text \<open>
  The divisors of \<open>collide_cookie\<close> are \<open>a\<close> and \<open>b\<close> (at least 5), \<open>s\<close> (a square root
  of a number above 1, or 1), \<open>a * a\<close>, \<open>b * b\<close> and \<open>nlen\<close> (at least \<open>1e-9\<close> where it
  divides), so no division of this function can raise.
\<close>

definition collide_cookie :: "EllipseBowlCollider \<Rightarrow> CookieBody \<Rightarrow> CookieBody" where
  "collide_cookie col c =
     (if pos_y c < rim_y col - radius c * (6 / 10)
      then c\<lparr>pos_x := opening_clamp_x col (pos_x c) (radius c)\<rparr>
      else
        let a = max 5 (axis_a col - radius c);
            b = max 5 (axis_b col - radius c);
            dx = pos_x c - cx col;
            dy = pos_y c - cy col;
            ex = dx / a;
            ey = dy / b;
            s2 = ex * ex + ey * ey
        in if s2 \<le> 1
           then (if pos_y c < rim_y col + radius c
                 then c\<lparr>pos_x := opening_clamp_x col (pos_x c) (radius c)\<rparr>
                 else c)
           else
             let s = (if s2 > 1 / 10 ^ 12 then sqrt s2 else 1);
                 c1 = c\<lparr>pos_x := cx col + dx / s, pos_y := cy col + dy / s\<rparr>;
                 nx = dx / (a * a);
                 ny = dy / (b * b);
                 nlen = hypot nx ny
             in if nlen < 1 / 10 ^ 9 then c1
                else
                  let nx = nx / nlen;
                      ny = ny / nlen;
                      vdotn = vx c1 * nx + vy c1 * ny;
                      c2 = c1\<lparr>vx := vx c1 - (1 + BOWL_RESTITUTION) * vdotn * nx\<rparr>;
                      c3 = c2\<lparr>vy := vy c2 - (1 + BOWL_RESTITUTION) * vdotn * ny\<rparr>;
                      c4 = c3\<lparr>vx := vx c3 * (99 / 100)\<rparr>;
                      c5 = c4\<lparr>vy := vy c4 * (995 / 1000)\<rparr>
                  in if pos_y c5 < rim_y col + radius c5
                     then c5\<lparr>pos_x := opening_clamp_x col (pos_x c5) (radius c5)\<rparr>
                     else c5)"

subsection \<open>The application state\<close>

text \<open>
  \<open>spawn_calls\<close> is a ghost field: it is not in the source and counts the calls of
  \<open>spawn_cookie\<close>, so that rejected spawn requests can be counted too. \<open>status\<close> is the
  text of the status label.
\<close>

record App =
  collider :: EllipseBowlCollider
  water_y :: real
  cookies :: "CookieBody list"
  counts :: "string \<rightharpoonup> int"
  auto_enabled :: bool
  auto_rate :: real
  auto_random_color :: bool
  auto_color :: string
  auto_accum :: real
  def_auto_drop :: bool
  def_poll :: bool
  defender_last_ids :: "string set"
  defender_pending_colors :: "string list"
  defender_last_error :: string
  defender_status_text :: string
  defender_total :: nat
  defender_last_fetch :: string
  sim_t :: real
  status :: string
  spawn_calls :: nat

definition canvas_w :: real where "canvas_w = 760"
definition canvas_h :: real where "canvas_h = 520"

definition App_init :: App where
  "App_init =
     (let bowl_cx = canvas_w * (52 / 100);
          bowl_cy = canvas_h * (67 / 100);
          bowl_a = canvas_w * (235 / 1000);
          bowl_b = canvas_h * (295 / 1000);
          rim = canvas_h * (30 / 100)
      in \<lparr>collider = EllipseBowlCollider_init bowl_cx bowl_cy bowl_a bowl_b rim,
          water_y = rim + bowl_b * (20 / 100),
          cookies = [],
          counts = Map.empty,
          auto_enabled = False,
          auto_rate = 3,
          auto_random_color = True,
          auto_color = COLORS ! 0,
          auto_accum = 0,
          def_auto_drop = True,
          def_poll = True,
          defender_last_ids = {},
          defender_pending_colors = [],
          defender_last_error = [],
          defender_status_text = ''Not checked yet'',
          defender_total = 0,
          defender_last_fetch = [],
          sim_t = 0,
          status = [],
          spawn_calls = 0\<rparr>)"

subsection \<open>Fill ratio and spawning\<close>

definition fill_ratio :: "App \<Rightarrow> real" where
  "fill_ratio app =
     (let filled = foldl (\<lambda>acc c. acc + pi * radius c * radius c) 0 (cookies app)
      in filled / max 1 (bowl_area (collider app)))"

text \<open>The draws of one \<open>spawn_cookie\<close> call and the ids the canvas returns to it.\<close>

record spawn_draws =
  u_r :: real
  u_x :: real
  u_y :: real
  u_vx :: real
  u_vy :: real
  u_phase :: real
  u_freq :: real
  new_shadow_id :: int
  new_item_id :: int
  new_highlight_id :: int

definition spawn_cookie :: "App \<Rightarrow> string \<Rightarrow> spawn_draws \<Rightarrow> App" where
  "spawn_cookie app0 color d =
     (let app = app0\<lparr>spawn_calls := spawn_calls app0 + 1\<rparr>;
          ratio = fill_ratio app
      in if ratio \<ge> HARD_STOP_AT
         then app\<lparr>status := ''Hard stop: bowl is overfilled. Clear some cookies.''\<rparr>
         else if length (cookies app) \<ge> MAX_COOKIES \<and> ratio \<ge> OVERFLOW_AT
         then app\<lparr>status := ''Too many cookies for stability. Clear or export.''\<rparr>
         else
           let r = uniform 11 18 (u_r d);
               x = uniform (rim_left (collider app) + r + 10)
                           (rim_right (collider app) - r - 10) (u_x d);
               y = rim_y (collider app) - r - uniform 45 120 (u_y d);
               vx0 = uniform (- 240) 240 (u_vx d);
               vy0 = uniform (- 40) 120 (u_vy d);
               c = \<lparr>color_name = color, radius = r, pos_x = x, pos_y = y,
                    vx = vx0, vy = vy0,
                    item_id = new_item_id d, shadow_id = new_shadow_id d,
                    highlight_id = new_highlight_id d,
                    asleep = False, sleep_counter = 0, underwater = False,
                    wobble_phase = u_phase d * tau,
                    wobble_freq = uniform WOBBLE_FREQ_MIN WOBBLE_FREQ_MAX (u_freq d)\<rparr>
           in app\<lparr>cookies := cookies app @ [c],
                   counts := (counts app)(color \<mapsto>
                      (case counts app color of None \<Rightarrow> 0 | Some k \<Rightarrow> k) + 1)\<rparr>)"

subsection \<open>Immersion\<close>

definition apply_underwater_mode :: "App \<Rightarrow> CookieBody \<Rightarrow> CookieBody" where
  "apply_underwater_mode app c =
     (let is_under = (pos_y c \<ge> water_y app)
      in if is_under = underwater c then c
         else
           let c1 = c\<lparr>underwater := is_under\<rparr>
           in if is_under
              then c1\<lparr>vx := vx c1 * (78 / 100), vy := vy c1 * (60 / 100)\<rparr>
              else c1\<lparr>vx := vx c1 * (105 / 100)\<rparr>)"

definition underwater_wobble_ax :: "App \<Rightarrow> CookieBody \<Rightarrow> real" where
  "underwater_wobble_ax app c =
     (let speed = hypot (vx c) (vy c);
          fade = clamp (speed / (SLEEP_SPEED * (25 / 10))) 0 1;
          wob = sin (wobble_phase c + tau * wobble_freq c * sim_t app)
      in WOBBLE_ACCEL * wob * fade)"

subsection \<open>Actions\<close>

text \<open>\<open>dr i\<close> holds the two draws \<open>shake\<close> makes for the cookie at index \<open>i\<close>.\<close>

definition shake :: "App \<Rightarrow> (nat \<Rightarrow> real \<times> real) \<Rightarrow> App" where
  "shake app dr =
     app\<lparr>cookies := map
        (\<lambda>(i, c). c\<lparr>asleep := False, sleep_counter := 0,
                     vx := vx c + uniform (- 760) 760 (fst (dr i)),
                     vy := vy c + uniform (- 560) 220 (snd (dr i))\<rparr>)
        (enumerate 0 (cookies app))\<rparr>"

definition clear :: "App \<Rightarrow> App" where
  "clear app =
     app\<lparr>cookies := [], counts := Map.empty, auto_accum := 0,
         defender_pending_colors := [], status := []\<rparr>"

subsection \<open>Spawn triggers\<close>

text \<open>
  \<open>env k\<close> gives, for the \<open>k\<close>-th spawn of the frame, the index drawn by
  \<open>random.choice\<close> and the draws of the spawn.
\<close>

definition auto_pick_color :: "App \<Rightarrow> nat \<Rightarrow> string" where
  "auto_pick_color app k =
     (if auto_random_color app then COLORS ! (k mod length COLORS)
      else if auto_color app \<noteq> [] then auto_color app else COLORS ! 0)"

definition auto_drop_step :: "App \<Rightarrow> real \<Rightarrow> (nat \<Rightarrow> nat \<times> spawn_draws) \<Rightarrow> App" where
  "auto_drop_step app dt env =
     (if \<not> auto_enabled app then app\<lparr>auto_accum := 0\<rparr>
      else
        let rate = max 0 (auto_rate app)
        in if rate \<le> 0 then app
           else
             let app1 = app\<lparr>auto_accum := auto_accum app + dt * rate\<rparr>;
                 to_spawn = py_int (auto_accum app1)
             in if to_spawn \<le> 0 then app1
                else
                  let app2 = app1\<lparr>auto_accum := auto_accum app1 - of_int to_spawn\<rparr>;
                      to_spawn = min to_spawn 10
                  in foldl (\<lambda>s k. spawn_cookie s (auto_pick_color s (fst (env k))) (snd (env k)))
                       app2 [0..<nat to_spawn])"

function defender_drain :: "nat \<Rightarrow> (nat \<Rightarrow> spawn_draws) \<Rightarrow> App \<Rightarrow> App" where
  "defender_drain dropped env app =
     (if defender_pending_colors app \<noteq> [] \<and> dropped < MAX_DROPS_PER_TICK
      then
        let color = hd (defender_pending_colors app);
            app1 = app\<lparr>defender_pending_colors := tl (defender_pending_colors app)\<rparr>;
            app2 = spawn_cookie app1 color (env dropped)
        in defender_drain (dropped + 1) env app2
      else app)"
  by pat_completeness auto
termination
  by (relation "measure (\<lambda>(dropped, env, app). MAX_DROPS_PER_TICK - dropped)") auto

declare defender_drain.simps [simp del]

definition defender_drop_step :: "App \<Rightarrow> (nat \<Rightarrow> spawn_draws) \<Rightarrow> App" where
  "defender_drop_step app env =
     (if \<not> def_auto_drop app then app else defender_drain 0 env app)"

subsection \<open>Pairwise contact resolution\<close>

text \<open>
  \<open>contact_delta\<close> is the head of \<open>_resolve_circle_collision\<close>: the centre delta, replaced
  by a vector of length \<open>0.01\<close> at the angle \<open>u * tau\<close> when the centres (nearly) coincide;
  \<open>u\<close> is the draw of \<open>random.random()\<close>. The two arguments are distinct objects in
  every call the source makes (\<open>i < j\<close>).
\<close>

definition contact_delta :: "CookieBody \<Rightarrow> CookieBody \<Rightarrow> real \<Rightarrow> real \<times> real" where
  "contact_delta a b u =
     (let dx = pos_x b - pos_x a;
          dy = pos_y b - pos_y a;
          dist2 = dx * dx + dy * dy
      in if dist2 \<le> 1 / 10 ^ 9
         then let ang = u * tau in (cos ang * (1 / 100), sin ang * (1 / 100))
         else (dx, dy))"

definition resolve_circle_collision ::
  "CookieBody \<Rightarrow> CookieBody \<Rightarrow> real \<Rightarrow> py_error + (CookieBody \<times> CookieBody)" where
  "resolve_circle_collision a b u =
     (let (dx, dy) = contact_delta a b u;
          dist2 = dx * dx + dy * dy;
          min_dist = radius a + radius b
      in if dist2 \<ge> min_dist * min_dist then Inr (a, b)
         else
           case py_sqrt dist2 of Inl e \<Rightarrow> Inl e | Inr dst \<Rightarrow>
           (case py_div dx dst of Inl e \<Rightarrow> Inl e | Inr nx \<Rightarrow>
           (case py_div dy dst of Inl e \<Rightarrow> Inl e | Inr ny \<Rightarrow>
             let overlap = min_dist - dst;
                 (a1, b1) =
                   (if asleep a \<and> \<not> asleep b
                    then (a, b\<lparr>pos_x := pos_x b + nx * overlap,
                                pos_y := pos_y b + ny * overlap\<rparr>)
                    else if asleep b \<and> \<not> asleep a
                    then (a\<lparr>pos_x := pos_x a - nx * overlap,
                            pos_y := pos_y a - ny * overlap\<rparr>, b)
                    else
                      let push = overlap * (1 / 2)
                      in (a\<lparr>pos_x := pos_x a - nx * push, pos_y := pos_y a - ny * push\<rparr>,
                          b\<lparr>pos_x := pos_x b + nx * push, pos_y := pos_y b + ny * push\<rparr>));
                 (a2, b2) =
                   (if overlap > 6 / 10
                    then (a1\<lparr>asleep := False, sleep_counter := 0\<rparr>,
                          b1\<lparr>asleep := False, sleep_counter := 0\<rparr>)
                    else (a1, b1));
                 rvx = vx b2 - vx a2;
                 rvy = vy b2 - vy a2;
                 vel_n = rvx * nx + rvy * ny
             in if vel_n > 0 then Inr (a2, b2)
                else
                  let j = - (1 + COOKIE_RESTITUTION) * vel_n / 2;
                      ix = j * nx;
                      iy = j * ny;
                      a3 = (if \<not> asleep a2 then a2\<lparr>vx := vx a2 - ix, vy := vy a2 - iy\<rparr>
                            else a2);
                      b3 = (if \<not> asleep b2 then b2\<lparr>vx := vx b2 + ix, vy := vy b2 + iy\<rparr>
                            else b2)
                  in Inr (a3, b3))))"

subsection \<open>The simulation step\<close>

text \<open>The body of the first loop of a substep, for one cookie.\<close>

definition integrate_cookie :: "App \<Rightarrow> real \<Rightarrow> CookieBody \<Rightarrow> CookieBody" where
  "integrate_cookie app sub_dt c0 =
     (let c = apply_underwater_mode app c0
      in if asleep c then c
         else
           let gravity = (if underwater c then GRAVITY_WATER else GRAVITY_AIR);
               friction = (if underwater c then FRICTION_WATER else FRICTION_AIR);
               c1 = (if underwater c
                     then let w = c\<lparr>vx := vx c + underwater_wobble_ax app c * sub_dt\<rparr>
                          in w\<lparr>vx := vx w * (1 - WOBBLE_DAMP * sub_dt)\<rparr>
                     else c);
               c2 = c1\<lparr>vy := vy c1 + gravity * sub_dt\<rparr>;
               c3 = c2\<lparr>pos_x := pos_x c2 + vx c2 * sub_dt\<rparr>;
               c4 = c3\<lparr>pos_y := pos_y c3 + vy c3 * sub_dt\<rparr>;
               c5 = c4\<lparr>vx := vx c4 * friction\<rparr>;
               c6 = c5\<lparr>vy := vy c5 * (if \<not> underwater c5 then 999 / 1000 else 990 / 1000)\<rparr>
           in collide_cookie (collider app) c6)"

text \<open>
  The index pairs \<open>(i, j)\<close> with \<open>i < j < n\<close> in the order of the two nested loops, and
  the pass over them. The source mutates the two objects of the list in place; the model
  writes the two results back at their indices. \<open>rnd i j\<close> is the draw available to the
  call on the pair \<open>(i, j)\<close>.
\<close>

definition index_pairs :: "nat \<Rightarrow> (nat \<times> nat) list" where
  "index_pairs n = concat (map (\<lambda>i. map (\<lambda>j. (i, j)) [i + 1..<n]) [0..<n])"

fun resolve_pairs ::
  "(nat \<times> nat) list \<Rightarrow> (nat \<Rightarrow> nat \<Rightarrow> real) \<Rightarrow> CookieBody list \<Rightarrow> py_error + CookieBody list" where
  "resolve_pairs [] rnd cs = Inr cs"
| "resolve_pairs ((i, j) # ps) rnd cs =
     (case resolve_circle_collision (cs ! i) (cs ! j) (rnd i j) of
        Inl e \<Rightarrow> Inl e
      | Inr (a', b') \<Rightarrow> resolve_pairs ps rnd (cs[i := a', j := b']))"

fun collision_passes ::
  "nat list \<Rightarrow> (nat \<Rightarrow> nat \<Rightarrow> nat \<Rightarrow> real) \<Rightarrow> CookieBody list \<Rightarrow> py_error + CookieBody list" where
  "collision_passes [] rnd cs = Inr cs"
| "collision_passes (p # ps) rnd cs =
     (case resolve_pairs (index_pairs (length cs)) (rnd p) cs of
        Inl e \<Rightarrow> Inl e
      | Inr cs' \<Rightarrow> collision_passes ps rnd cs')"

fun substeps ::
  "nat list \<Rightarrow> App \<Rightarrow> real \<Rightarrow> (nat \<Rightarrow> nat \<Rightarrow> nat \<Rightarrow> nat \<Rightarrow> real) \<Rightarrow> CookieBody list
     \<Rightarrow> py_error + CookieBody list" where
  "substeps [] app sub_dt rnd cs = Inr cs"
| "substeps (k # ks) app sub_dt rnd cs =
     (case collision_passes [0..<COLLISION_PASSES] (rnd k) (map (integrate_cookie app sub_dt) cs) of
        Inl e \<Rightarrow> Inl e
      | Inr cs' \<Rightarrow> substeps ks app sub_dt rnd cs')"

definition sleep_update :: "App \<Rightarrow> CookieBody \<Rightarrow> CookieBody" where
  "sleep_update app c =
     (if asleep c then c
      else
        let speed = hypot (vx c) (vy c)
        in if speed < SLEEP_SPEED \<and> pos_y c > rim_y (collider app) + radius c
           then
             let c1 = c\<lparr>sleep_counter := sleep_counter c + 1\<rparr>
             in if sleep_counter c1 \<ge> SLEEP_FRAMES
                then c1\<lparr>asleep := True, vx := 0, vy := 0\<rparr>
                else c1
           else c\<lparr>sleep_counter := 0\<rparr>)"

text \<open>
  \<open>step\<close> is \<open>App._step\<close>; \<open>rnd k p i j\<close> is the draw for the pair \<open>(i, j)\<close> in pass \<open>p\<close>
  of substep \<open>k\<close>. The fill meter it refreshes at the end is a widget.
\<close>

definition step :: "App \<Rightarrow> real \<Rightarrow> (nat \<Rightarrow> nat \<Rightarrow> nat \<Rightarrow> nat \<Rightarrow> real) \<Rightarrow> py_error + App" where
  "step app dt rnd =
     (let sub_dt = dt / real SUBSTEPS
      in case substeps [0..<SUBSTEPS] app sub_dt rnd (cookies app) of
           Inl e \<Rightarrow> Inl e
         | Inr cs \<Rightarrow> Inr (app\<lparr>cookies := map (sleep_update app) cs\<rparr>))"

text \<open>
  One frame of \<open>App._loop\<close> up to the physics step; \<open>elapsed\<close> is
  \<open>now - self._last_t\<close>.
\<close>

definition frame_dt :: "real \<Rightarrow> real" where
  "frame_dt elapsed = min elapsed (1 / 30)"

definition loop_frame ::
  "App \<Rightarrow> real \<Rightarrow> (nat \<Rightarrow> nat \<times> spawn_draws) \<Rightarrow> (nat \<Rightarrow> spawn_draws)
     \<Rightarrow> (nat \<Rightarrow> nat \<Rightarrow> nat \<Rightarrow> nat \<Rightarrow> real) \<Rightarrow> py_error + App" where
  "loop_frame app elapsed env denv rnd =
     (let dt = frame_dt elapsed;
          app1 = app\<lparr>sim_t := sim_t app + dt\<rparr>;
          app2 = auto_drop_step app1 dt env;
          app3 = defender_drop_step app2 denv
      in step app3 dt rnd)"

subsection \<open>The Defender feed\<close>


























subsection \<open>Notions used by the statements\<close>

text \<open>
The condition under which \<open>spawn_cookie\<close> returns before creating a cookie.
\<close>

definition spawn_rejects :: "App \<Rightarrow> bool" where
  "spawn_rejects app =
     (fill_ratio app \<ge> HARD_STOP_AT \<or>
      (length (cookies app) \<ge> MAX_COOKIES \<and> fill_ratio app \<ge> OVERFLOW_AT))"

text \<open>
A sequence of \<open>spawn_cookie\<close> calls, each with its colour and its draws.
\<close>

definition spawn_many :: "App \<Rightarrow> (string \<times> spawn_draws) list \<Rightarrow> App" where
  "spawn_many app reqs = foldl (\<lambda>s (color, d). spawn_cookie s color d) app reqs"

text \<open>
The sleep invariant of one cookie: a sleeping cookie has velocity zero.
\<close>

definition sleep_inv :: "CookieBody \<Rightarrow> bool" where
  "sleep_inv c = (asleep c \<longrightarrow> vx c = 0 \<and> vy c = 0)"

text \<open>
The containment test of one cookie: in the funnel zone above the rim, or inside the ellipse shrunk by the radius.
\<close>

definition contained :: "EllipseBowlCollider \<Rightarrow> CookieBody \<Rightarrow> bool" where
  "contained col c =
     (pos_y c < rim_y col - radius c * (6 / 10) \<or>
      (let a = max 5 (axis_a col - radius c);
           b = max 5 (axis_b col - radius c);
           ex = (pos_x c - cx col) / a;
           ey = (pos_y c - cy col) / b
       in ex * ex + ey * ey \<le> 1))"

text \<open>
The quantities of the reflection branch of \<open>collide_cookie\<close>: the normalised squared distance from the centre on the shrunk axes, the length of the gradient, the unit normal, and the velocity after the reflection and before the damping.
\<close>

definition ellipse_s2 :: "EllipseBowlCollider \<Rightarrow> CookieBody \<Rightarrow> real" where
  "ellipse_s2 col c =
     (let a = max 5 (axis_a col - radius c);
          b = max 5 (axis_b col - radius c);
          ex = (pos_x c - cx col) / a;
          ey = (pos_y c - cy col) / b
      in ex * ex + ey * ey)"

definition gradient_length :: "EllipseBowlCollider \<Rightarrow> CookieBody \<Rightarrow> real" where
  "gradient_length col c =
     (let a = max 5 (axis_a col - radius c);
          b = max 5 (axis_b col - radius c);
          dx = pos_x c - cx col;
          dy = pos_y c - cy col
      in hypot (dx / (a * a)) (dy / (b * b)))"

definition boundary_normal :: "EllipseBowlCollider \<Rightarrow> CookieBody \<Rightarrow> real \<times> real" where
  "boundary_normal col c =
     (let a = max 5 (axis_a col - radius c);
          b = max 5 (axis_b col - radius c);
          dx = pos_x c - cx col;
          dy = pos_y c - cy col;
          nx = dx / (a * a);
          ny = dy / (b * b);
          nlen = hypot nx ny
      in (nx / nlen, ny / nlen))"

definition reflected_velocity :: "EllipseBowlCollider \<Rightarrow> CookieBody \<Rightarrow> real \<times> real" where
  "reflected_velocity col c =
     (let (nx, ny) = boundary_normal col c;
          vdotn = vx c * nx + vy c * ny
      in (vx c - (1 + BOWL_RESTITUTION) * vdotn * nx,
          vy c - (1 + BOWL_RESTITUTION) * vdotn * ny))"

text \<open>
The containment test with a tolerance on the normalised squared distance.
\<close>

definition contained_within :: "real \<Rightarrow> EllipseBowlCollider \<Rightarrow> CookieBody \<Rightarrow> bool" where
  "contained_within tol col c =
     (pos_y c < rim_y col - radius c * (6 / 10) \<or> ellipse_s2 col c \<le> 1 + tol)"




subsection \<open>Concrete inputs\<close>

definition demo_draws :: spawn_draws where
  "demo_draws = \<lparr>u_r = 1 / 2, u_x = 1 / 2, u_y = 1 / 2, u_vx = 1 / 2, u_vy = 1 / 2,
                  u_phase = 0, u_freq = 1 / 2,
                  new_shadow_id = 1, new_item_id = 2, new_highlight_id = 3\<rparr>"

definition demo_cookie :: CookieBody where
  "demo_cookie = \<lparr>color_name = ''red'', radius = 18, pos_x = 395, pos_y = 300,
                   vx = 0, vy = 0, item_id = 2, shadow_id = 1, highlight_id = 3,
                   asleep = False, sleep_counter = 0, underwater = True,
                   wobble_phase = 0, wobble_freq = 1\<rparr>"

definition full_app :: App where
  "full_app = App_init\<lparr>cookies := replicate 210 demo_cookie,
                        defender_pending_colors :=
                          [''red'', ''orange'', ''yellow'', ''purple'',
                           ''red'', ''red'', ''orange'', ''red'']\<rparr>"

text \<open>
The collider of \<open>App_init\<close> before its area is sampled.
\<close>

definition app_rim :: EllipseBowlCollider where
  "app_rim = recalc_rim \<lparr>cx = 3952 / 10, cy = 3484 / 10, axis_a = 1786 / 10,
     axis_b = 1534 / 10, rim_y = 156, rim_left = 3952 / 10 - 1786 / 10 * (3 / 10),
     rim_right = 3952 / 10 + 1786 / 10 * (3 / 10), bowl_area = 1\<rparr>"

text \<open>
Two sleeping cookies at the height of the bowl centre that overlap by \<open>0.5\<close>.
\<close>

definition rest_a :: CookieBody where
  "rest_a = \<lparr>color_name = ''red'', radius = 15, pos_x = 5292 / 10, pos_y = 3484 / 10,
              vx = 0, vy = 0, item_id = 2, shadow_id = 1, highlight_id = 3,
              asleep = True, sleep_counter = 18, underwater = True,
              wobble_phase = 0, wobble_freq = 1\<rparr>"

definition rest_b :: CookieBody where
  "rest_b = \<lparr>color_name = ''blue'', radius = 15, pos_x = 5587 / 10, pos_y = 3484 / 10,
              vx = 0, vy = 0, item_id = 5, shadow_id = 4, highlight_id = 6,
              asleep = True, sleep_counter = 18, underwater = True,
              wobble_phase = 0, wobble_freq = 1\<rparr>"

definition rest_app :: App where
  "rest_app = App_init\<lparr>cookies := [rest_a, rest_b]\<rparr>"








text \<open>
A cookie one unit below the bottom of the shrunk ellipse.
\<close>

definition below_bowl :: CookieBody where
  "below_bowl = \<lparr>color_name = ''red'', radius = 15, pos_x = 3952 / 10, pos_y = 4878 / 10,
                  vx = 100, vy = 100, item_id = 2, shadow_id = 1, highlight_id = 3,
                  asleep = False, sleep_counter = 0, underwater = True,
                  wobble_phase = 0, wobble_freq = 1\<rparr>"

text \<open>
The two cookies and the application after one step.
\<close>

definition rest_a_after :: CookieBody where
  "rest_a_after = rest_a\<lparr>pos_x := 52895 / 100\<rparr>"

definition rest_b_after :: CookieBody where
  "rest_b_after = rest_b\<lparr>pos_x := 55895 / 100\<rparr>"

definition rest_app_after :: App where
  "rest_app_after = rest_app\<lparr>cookies := [rest_a_after, rest_b_after]\<rparr>"


section \<open>Properties\<close>

subsection \<open>Fill ratio and spawning\<close>

lemma foldl_area:
  "foldl (\<lambda>acc c. acc + pi * radius c * radius c) a cs
     = a + (\<Sum>c\<leftarrow>cs. pi * radius c * radius c)"
  by (induction cs arbitrary: a) simp_all

lemma fill_ratio_sum:
  "fill_ratio app = (\<Sum>c\<leftarrow>cookies app. pi * radius c * radius c) / max 1 (bowl_area (collider app))"
  by (simp add: fill_ratio_def foldl_area)

lemma fill_ratio_spawn_calls [simp]:
  "fill_ratio (app\<lparr>spawn_calls := k\<rparr>) = fill_ratio app"
  by (simp add: fill_ratio_def)

lemma fill_ratio_pending [simp]:
  "fill_ratio (app\<lparr>defender_pending_colors := k\<rparr>) = fill_ratio app"
  by (simp add: fill_ratio_def)

lemma spawn_cookie_rejected:
  assumes "spawn_rejects app"
  shows "cookies (spawn_cookie app color d) = cookies app"
    and "counts (spawn_cookie app color d) = counts app"
    and "collider (spawn_cookie app color d) = collider app"
    and "defender_pending_colors (spawn_cookie app color d) = defender_pending_colors app"
    and "spawn_calls (spawn_cookie app color d) = spawn_calls app + 1"
  using assms by (auto simp: spawn_cookie_def spawn_rejects_def Let_def)

lemma spawn_cookie_accepted:
  assumes "\<not> spawn_rejects app"
  shows "\<exists>c. cookies (spawn_cookie app color d) = cookies app @ [c]
              \<and> radius c = uniform 11 18 (u_r d) \<and> \<not> asleep c \<and> color_name c = color"
    and "counts (spawn_cookie app color d)
           = (counts app)(color \<mapsto> (case counts app color of None \<Rightarrow> 0 | Some k \<Rightarrow> k) + 1)"
    and "collider (spawn_cookie app color d) = collider app"
    and "defender_pending_colors (spawn_cookie app color d) = defender_pending_colors app"
    and "spawn_calls (spawn_cookie app color d) = spawn_calls app + 1"
  using assms by (auto simp: spawn_cookie_def spawn_rejects_def Let_def)

lemma spawn_cookie_frame:
  "collider (spawn_cookie app color d) = collider app"
  "defender_pending_colors (spawn_cookie app color d) = defender_pending_colors app"
  "spawn_calls (spawn_cookie app color d) = spawn_calls app + 1"
  "auto_accum (spawn_cookie app color d) = auto_accum app"
  "def_auto_drop (spawn_cookie app color d) = def_auto_drop app"
  by (auto simp: spawn_cookie_def Let_def)

lemma hard_stop_fixed:
  assumes "HARD_STOP_AT \<le> fill_ratio app"
  shows "fill_ratio (spawn_cookie app color d) = fill_ratio app"
    and "cookies (spawn_cookie app color d) = cookies app"
    and "counts (spawn_cookie app color d) = counts app"
proof -
  have r: "spawn_rejects app" using assms by (simp add: spawn_rejects_def)
  show "cookies (spawn_cookie app color d) = cookies app"
    and "counts (spawn_cookie app color d) = counts app"
    using spawn_cookie_rejected[OF r] by simp_all
  then show "fill_ratio (spawn_cookie app color d) = fill_ratio app"
    by (simp add: fill_ratio_sum spawn_cookie_frame)
qed

lemma spawn_many_hard_stop:
  "HARD_STOP_AT \<le> fill_ratio app \<Longrightarrow>
     cookies (spawn_many app reqs) = cookies app \<and> counts (spawn_many app reqs) = counts app"
proof (induction reqs arbitrary: app)
  case Nil
  then show ?case by (simp add: spawn_many_def)
next
  case (Cons q reqs)
  obtain color d where q: "q = (color, d)" by (cases q)
  have "HARD_STOP_AT \<le> fill_ratio (spawn_cookie app color d)"
    using Cons.prems hard_stop_fixed(1) by simp
  from Cons.IH[OF this] show ?case
    using hard_stop_fixed(2,3)[OF Cons.prems] by (simp add: spawn_many_def q)
qed

subsection \<open>The bowl of the application\<close>

lemma scaled_area_le:
  assumes "0 \<le> R" and "n \<le> m" and "0 < m"
  shows "max 1 (R * (real n / real m)) \<le> max (1::real) R"
proof -
  have "real n / real m \<le> 1" using assms(2,3) by simp
  then have "R * (real n / real m) \<le> R * 1" using assms(1) by (intro mult_left_mono)
  then show ?thesis by simp
qed

lemma bowl_area_update: "bowl_area (col\<lparr>bowl_area := v\<rparr>) = v"
  by simp

lemma recalc_area_le:
  assumes "0 \<le> axis_a col" and "rim_y col \<le> cy col + axis_b col"
  shows "bowl_area (recalc_area col)
           \<le> max 1 (2 * axis_a col * (cy col + axis_b col - rim_y col))"
proof -
  have "\<exists>n. bowl_area (recalc_area col)
           = max 1 ((cx col + axis_a col - (cx col - axis_a col))
                      * (cy col + axis_b col - rim_y col) * (real n / real (140 * 180)))
          \<and> n \<le> 140 * 180"
    unfolding recalc_area_def Let_def
    apply (subst bowl_area_update)
    apply (rule exI, rule conjI, rule refl)
    apply (rule order_trans[OF length_filter_le])
    apply simp
    done
  then obtain n where b: "bowl_area (recalc_area col)
           = max 1 ((cx col + axis_a col - (cx col - axis_a col))
                      * (cy col + axis_b col - rim_y col) * (real n / real (140 * 180)))"
      and n: "n \<le> 140 * 180" by blast
  have rect: "0 \<le> (cx col + axis_a col - (cx col - axis_a col)) * (cy col + axis_b col - rim_y col)"
    using assms by simp
  have "bowl_area (recalc_area col)
          \<le> max 1 ((cx col + axis_a col - (cx col - axis_a col)) * (cy col + axis_b col - rim_y col))"
    unfolding b by (rule scaled_area_le[OF rect n]) simp
  then show ?thesis by simp
qed

lemma recalc_area_frame: "\<exists>v. recalc_area col = col\<lparr>bowl_area := v\<rparr>"
  unfolding recalc_area_def Let_def by (rule exI, rule refl)

lemma recalc_area_fields:
  "cx (recalc_area col) = cx col" "cy (recalc_area col) = cy col"
  "axis_a (recalc_area col) = axis_a col" "axis_b (recalc_area col) = axis_b col"
  "rim_y (recalc_area col) = rim_y col" "rim_left (recalc_area col) = rim_left col"
  "rim_right (recalc_area col) = rim_right col"
  using recalc_area_frame[of col] by auto

lemma recalc_area_ge_1: "1 \<le> bowl_area (recalc_area col)"
  unfolding recalc_area_def Let_def by (subst bowl_area_update) (rule max.cobounded1)

lemma app_rim_fields:
  "cx app_rim = 3952 / 10" "cy app_rim = 3484 / 10" "axis_a app_rim = 1786 / 10"
  "axis_b app_rim = 1534 / 10" "rim_y app_rim = 156"
  "rim_left app_rim = 38627 / 100" "rim_right app_rim = 40413 / 100"
  by (simp_all add: app_rim_def recalc_rim_def Let_def)

lemma app_collider_eq: "collider App_init = recalc_area app_rim"
proof -
  have "canvas_w * (52 / 100) = 3952 / 10" "canvas_h * (67 / 100) = 3484 / 10"
    "canvas_w * (235 / 1000) = 1786 / 10" "canvas_h * (295 / 1000) = 1534 / 10"
    "canvas_h * (30 / 100) = 156"
    by (simp_all add: canvas_w_def canvas_h_def)
  then show ?thesis
    unfolding App_init_def Let_def EllipseBowlCollider_init_def app_rim_def
    by (simp only: App.select_convs)
qed

lemma app_collider_fields:
  "cx (collider App_init) = 3952 / 10"
  "cy (collider App_init) = 3484 / 10"
  "axis_a (collider App_init) = 1786 / 10"
  "axis_b (collider App_init) = 1534 / 10"
  "rim_y (collider App_init) = 156"
  "rim_left (collider App_init) = 38627 / 100"
  "rim_right (collider App_init) = 40413 / 100"
  by (simp_all only: app_collider_eq recalc_area_fields app_rim_fields)

lemma app_bowl_area_bounds:
  "1 \<le> bowl_area (collider App_init)" "bowl_area (collider App_init) \<le> 123520"
proof -
  show "1 \<le> bowl_area (collider App_init)"
    unfolding app_collider_eq by (rule recalc_area_ge_1)
  have "bowl_area (recalc_area app_rim)
          \<le> max 1 (2 * axis_a app_rim * (cy app_rim + axis_b app_rim - rim_y app_rim))"
    by (rule recalc_area_le) (simp_all add: app_rim_fields)
  then show "bowl_area (collider App_init) \<le> 123520"
    unfolding app_collider_eq by (simp add: app_rim_fields)
qed

lemma full_app_hard_stop: "HARD_STOP_AT \<le> fill_ratio full_app"
proof -
  have s: "(\<Sum>c\<leftarrow>cookies full_app. pi * radius c * radius c) = 68040 * pi"
    by (simp add: full_app_def demo_cookie_def sum_list_replicate)
  have d: "max 1 (bowl_area (collider full_app)) \<le> 123520"
    using app_bowl_area_bounds by (simp add: full_app_def)
  have d0: "0 < max 1 (bowl_area (collider full_app))" by simp
  have "HARD_STOP_AT * max 1 (bowl_area (collider full_app)) \<le> (110 / 100) * 123520"
    unfolding HARD_STOP_AT_def using d by simp
  also have "\<dots> \<le> 68040 * pi" using pi_ge_two by simp
  finally show ?thesis
    unfolding fill_ratio_sum s using d0 by (simp add: pos_le_divide_eq)
qed

lemma App_init_accepts: "\<not> spawn_rejects App_init"
  by (simp add: spawn_rejects_def fill_ratio_sum App_init_def Let_def HARD_STOP_AT_def
      OVERFLOW_AT_def MAX_COOKIES_def)

text \<open>
  Claim C2 (spawn rejection). \<open>spawn_cookie\<close> leaves the cookies and the per-colour counters
  unchanged exactly when the fill ratio is at least \<open>HARD_STOP_AT\<close>, or the cookie count is
  at least \<open>MAX_COOKIES\<close> and the fill ratio at least \<open>OVERFLOW_AT\<close>; in every other case
  it appends exactly one cookie and adds one to the counter of the colour. Once the fill
  ratio has reached \<open>HARD_STOP_AT\<close>, any sequence of further spawns leaves the cookies and
  the counters as they are.
\<close>

theorem spawn_rejection:
  "(spawn_rejects app \<longrightarrow>
      cookies (spawn_cookie app color d) = cookies app \<and>
      counts (spawn_cookie app color d) = counts app) \<and>
   (\<not> spawn_rejects app \<longrightarrow>
      (\<exists>c. cookies (spawn_cookie app color d) = cookies app @ [c]) \<and>
      counts (spawn_cookie app color d)
        = (counts app)(color \<mapsto> (case counts app color of None \<Rightarrow> 0 | Some k \<Rightarrow> k) + 1)) \<and>
   (HARD_STOP_AT \<le> fill_ratio app \<longrightarrow>
      cookies (spawn_many app reqs) = cookies app \<and>
      counts (spawn_many app reqs) = counts app \<and>
      length (cookies (spawn_many app reqs)) = length (cookies app))"
proof (intro conjI impI)
  assume r: "spawn_rejects app"
  show "cookies (spawn_cookie app color d) = cookies app"
    and "counts (spawn_cookie app color d) = counts app"
    using spawn_cookie_rejected[OF r] by simp_all
next
  assume a: "\<not> spawn_rejects app"
  show "\<exists>c. cookies (spawn_cookie app color d) = cookies app @ [c]"
    using spawn_cookie_accepted(1)[OF a] by blast
  show "counts (spawn_cookie app color d)
        = (counts app)(color \<mapsto> (case counts app color of None \<Rightarrow> 0 | Some k \<Rightarrow> k) + 1)"
    using spawn_cookie_accepted(2)[OF a] .
next
  assume h: "HARD_STOP_AT \<le> fill_ratio app"
  show "cookies (spawn_many app reqs) = cookies app"
    and "counts (spawn_many app reqs) = counts app"
    and "length (cookies (spawn_many app reqs)) = length (cookies app)"
    using spawn_many_hard_stop[OF h] by simp_all
qed

theorem spawn_rejection_witness:
  "spawn_rejects full_app \<and>
   cookies (spawn_cookie full_app ''red'' demo_draws) = cookies full_app \<and>
   counts (spawn_cookie full_app ''red'' demo_draws) = counts full_app \<and>
   length (cookies (spawn_many full_app [(''red'', demo_draws), (''blue'', demo_draws)])) = 210 \<and>
   \<not> spawn_rejects App_init \<and>
   length (cookies (spawn_cookie App_init ''red'' demo_draws)) = 1 \<and>
   counts (spawn_cookie App_init ''red'' demo_draws) ''red'' = Some 1"
proof -
  have r: "spawn_rejects full_app"
    using full_app_hard_stop by (simp add: spawn_rejects_def)
  have l: "length (cookies full_app) = 210" by (simp add: full_app_def)
  have c0: "cookies App_init = []" "counts App_init = Map.empty"
    by (simp_all add: App_init_def Let_def)
  show ?thesis
    using spawn_rejection[of full_app "''red''" demo_draws
            "[(''red'', demo_draws), (''blue'', demo_draws)]"]
          spawn_rejection[of App_init "''red''" demo_draws "[]"]
          r full_app_hard_stop App_init_accepts l c0
    by auto
qed

lemma uniform_radius_pos: "0 \<le> u \<Longrightarrow> 0 < uniform 11 18 u"
  by (simp add: uniform_def add_pos_nonneg)

lemma spawn_fill_step:
  assumes "0 \<le> u_r d"
  shows "if spawn_rejects app
         then fill_ratio (spawn_cookie app color d) = fill_ratio app
         else fill_ratio app < fill_ratio (spawn_cookie app color d)"
proof (cases "spawn_rejects app")
  case True
  then show ?thesis
    using spawn_cookie_rejected(1,3)[OF True, of color d] by (simp add: fill_ratio_sum)
next
  case False
  obtain c where c: "cookies (spawn_cookie app color d) = cookies app @ [c]"
      "radius c = uniform 11 18 (u_r d)"
    using spawn_cookie_accepted(1)[OF False, of color d] by blast
  have rp: "0 < radius c" using c(2) uniform_radius_pos[OF assms] by simp
  have ap: "0 < pi * radius c * radius c" using rp by simp
  have dp: "0 < max 1 (bowl_area (collider app))" by simp
  have "fill_ratio (spawn_cookie app color d)
          = fill_ratio app + pi * radius c * radius c / max 1 (bowl_area (collider app))"
    by (simp add: fill_ratio_sum c(1) spawn_cookie_frame add_divide_distrib)
  moreover have "0 < pi * radius c * radius c / max 1 (bowl_area (collider app))"
    using ap dp by (rule divide_pos_pos)
  ultimately show ?thesis using False by simp
qed

lemma spawn_many_snoc:
  "spawn_many app (reqs @ [(color, d)]) = spawn_cookie (spawn_many app reqs) color d"
  by (simp add: spawn_many_def)

lemma spawn_many_collider: "collider (spawn_many app reqs) = collider app"
  by (induction reqs rule: rev_induct)
     (auto simp: spawn_many_def spawn_cookie_frame split: prod.splits)

text \<open>
  Claim C6 (monotone fill). Over any sequence of spawns whose radius draws lie in
  \<open>[0, 1)\<close>, the fill ratio does not decrease and the bowl area of the denominator stays
  the same; at every position of the sequence a rejected spawn leaves the ratio unchanged
  and an accepted one strictly increases it.
\<close>

theorem monotone_fill:
  assumes "\<forall>q \<in> set reqs. 0 \<le> u_r (snd q) \<and> u_r (snd q) < 1"
  shows "fill_ratio app \<le> fill_ratio (spawn_many app reqs) \<and>
         bowl_area (collider (spawn_many app reqs)) = bowl_area (collider app) \<and>
         (\<forall>k < length reqs.
            let s = spawn_many app (take k reqs);
                s' = spawn_cookie s (fst (reqs ! k)) (snd (reqs ! k))
            in spawn_many app (take (Suc k) reqs) = s' \<and>
               (if spawn_rejects s then fill_ratio s' = fill_ratio s
                else fill_ratio s < fill_ratio s'))"
proof (intro conjI allI impI)
  show "fill_ratio app \<le> fill_ratio (spawn_many app reqs)"
    using assms
  proof (induction reqs rule: rev_induct)
    case Nil
    then show ?case by (simp add: spawn_many_def)
  next
    case (snoc q reqs)
    obtain color d where q: "q = (color, d)" by (cases q)
    have "0 \<le> u_r d" using snoc.prems q by simp
    from spawn_fill_step[OF this, of "spawn_many app reqs" color]
    have "fill_ratio (spawn_many app reqs) \<le> fill_ratio (spawn_cookie (spawn_many app reqs) color d)"
      by (simp split: if_splits)
    moreover have "fill_ratio app \<le> fill_ratio (spawn_many app reqs)"
      using snoc by simp
    ultimately show ?case by (simp add: q spawn_many_snoc)
  qed
next
  show "bowl_area (collider (spawn_many app reqs)) = bowl_area (collider app)"
    by (simp add: spawn_many_collider)
next
  fix k assume k: "k < length reqs"
  have t: "take (Suc k) reqs = take k reqs @ [(fst (reqs ! k), snd (reqs ! k))]"
    using k by (simp add: take_Suc_conv_app_nth)
  have "0 \<le> u_r (snd (reqs ! k))" using assms k by simp
  from spawn_fill_step[OF this]
  show "let s = spawn_many app (take k reqs);
            s' = spawn_cookie s (fst (reqs ! k)) (snd (reqs ! k))
        in spawn_many app (take (Suc k) reqs) = s' \<and>
           (if spawn_rejects s then fill_ratio s' = fill_ratio s
            else fill_ratio s < fill_ratio s')"
    unfolding Let_def t spawn_many_snoc by simp
qed

theorem monotone_fill_witness:
  "fill_ratio App_init \<le> fill_ratio (spawn_many App_init [(''red'', demo_draws), (''blue'', demo_draws)]) \<and>
   fill_ratio App_init < fill_ratio (spawn_cookie App_init ''red'' demo_draws)"
proof -
  have h: "\<forall>q \<in> set [(''red'', demo_draws), (''blue'', demo_draws)].
             0 \<le> u_r (snd q) \<and> u_r (snd q) < 1"
    by (simp add: demo_draws_def)
  have z: "spawn_many App_init [] = App_init" by (simp add: spawn_many_def)
  show ?thesis
    using monotone_fill[OF h, of App_init] App_init_accepts z
    by (auto simp: Let_def dest!: spec[where x=0])
qed

subsection \<open>The defender drain\<close>

lemma defender_drain_stop:
  "\<not> (defender_pending_colors app \<noteq> [] \<and> dropped < MAX_DROPS_PER_TICK) \<Longrightarrow>
     defender_drain dropped env app = app"
  by (subst defender_drain.simps) auto

lemma defender_drain_go:
  "defender_pending_colors app \<noteq> [] \<and> dropped < MAX_DROPS_PER_TICK \<Longrightarrow>
     defender_drain dropped env app
       = defender_drain (dropped + 1) env
           (spawn_cookie (app\<lparr>defender_pending_colors := tl (defender_pending_colors app)\<rparr>)
              (hd (defender_pending_colors app)) (env dropped))"
  by (subst defender_drain.simps) (simp add: Let_def)

lemma defender_drain_pending:
  "defender_pending_colors (defender_drain k env app)
     = drop (MAX_DROPS_PER_TICK - k) (defender_pending_colors app)"
proof (induction k env app rule: defender_drain.induct)
  case (1 dropped env app)
  show ?case
  proof (cases "defender_pending_colors app \<noteq> [] \<and> dropped < MAX_DROPS_PER_TICK")
    case True
    have e: "MAX_DROPS_PER_TICK - dropped = Suc (MAX_DROPS_PER_TICK - (dropped + 1))"
      using True by linarith
    show ?thesis
      using True "1.IH"[OF True refl refl refl]
      by (simp add: defender_drain_go spawn_cookie_frame e drop_Suc)
  next
    case False
    then show ?thesis by (auto simp: defender_drain_stop)
  qed
qed

lemma defender_drain_calls:
  "spawn_calls (defender_drain k env app)
     = spawn_calls app + min (MAX_DROPS_PER_TICK - k) (length (defender_pending_colors app))"
proof (induction k env app rule: defender_drain.induct)
  case (1 dropped env app)
  show ?case
  proof (cases "defender_pending_colors app \<noteq> [] \<and> dropped < MAX_DROPS_PER_TICK")
    case True
    have e: "MAX_DROPS_PER_TICK - dropped = Suc (MAX_DROPS_PER_TICK - (dropped + 1))"
      using True by linarith
    have l: "length (defender_pending_colors app) = Suc (length (tl (defender_pending_colors app)))"
      using True by (cases "defender_pending_colors app") simp_all
    show ?thesis
      using True "1.IH"[OF True refl refl refl]
      by (simp add: defender_drain_go spawn_cookie_frame e l del: length_tl)
  next
    case False
    then show ?thesis by (auto simp: defender_drain_stop)
  qed
qed

lemma spawn_rejects_pending [simp]:
  "spawn_rejects (app\<lparr>defender_pending_colors := k\<rparr>) = spawn_rejects app"
  by (simp add: spawn_rejects_def)

lemma spawn_rejects_stable:
  assumes "spawn_rejects app"
  shows "spawn_rejects (spawn_cookie app color d)"
proof -
  have "cookies (spawn_cookie app color d) = cookies app"
    "collider (spawn_cookie app color d) = collider app"
    using spawn_cookie_rejected[OF assms] by simp_all
  then show ?thesis using assms by (simp add: spawn_rejects_def fill_ratio_sum)
qed

lemma defender_drain_rejecting:
  "spawn_rejects app \<Longrightarrow>
     cookies (defender_drain k env app) = cookies app \<and>
     counts (defender_drain k env app) = counts app"
proof (induction k env app rule: defender_drain.induct)
  case (1 dropped env app)
  show ?case
  proof (cases "defender_pending_colors app \<noteq> [] \<and> dropped < MAX_DROPS_PER_TICK")
    case True
    define app1 where "app1 = app\<lparr>defender_pending_colors := tl (defender_pending_colors app)\<rparr>"
    define app2 where "app2 = spawn_cookie app1 (hd (defender_pending_colors app)) (env dropped)"
    have h1: "spawn_rejects app1" using "1.prems" by (simp add: app1_def)
    have h2: "spawn_rejects app2"
      unfolding app2_def using h1 by (rule spawn_rejects_stable)
    have "cookies (defender_drain (dropped + 1) env app2) = cookies app2 \<and>
          counts (defender_drain (dropped + 1) env app2) = counts app2"
      using "1.IH"[OF True refl refl refl] h2 by (simp add: app1_def app2_def)
    moreover have "cookies app2 = cookies app" "counts app2 = counts app"
      using spawn_cookie_rejected(1,2)[OF h1] by (simp_all add: app2_def app1_def)
    moreover have "defender_drain dropped env app = defender_drain (dropped + 1) env app2"
      using True by (simp add: defender_drain_go app1_def app2_def)
    ultimately show ?thesis by simp
  next
    case False
    then show ?thesis by (auto simp: defender_drain_stop)
  qed
qed

lemma full_app_rejects: "spawn_rejects full_app"
  using full_app_hard_stop by (simp add: spawn_rejects_def)

text \<open>
  Claim C10 (lossy defender drain). With the automatic drop enabled and the bowl in a
  state where \<open>spawn_cookie\<close> rejects, one \<open>defender_drop_step\<close> removes the first \<open>MAX_DROPS_PER_TICK\<close> pending
  colours (all of them when fewer are pending), calls \<open>spawn_cookie\<close> once for each, and
  creates no cookie: the rejected requests are gone from the queue, which a later frame
  reads, and nothing puts them back.
\<close>

theorem lossy_defender_drain:
  assumes "def_auto_drop app" and "spawn_rejects app"
  shows "defender_pending_colors (defender_drop_step app env)
           = drop MAX_DROPS_PER_TICK (defender_pending_colors app) \<and>
         length (defender_pending_colors (defender_drop_step app env))
           = length (defender_pending_colors app)
               - min MAX_DROPS_PER_TICK (length (defender_pending_colors app)) \<and>
         spawn_calls (defender_drop_step app env)
           = spawn_calls app + min MAX_DROPS_PER_TICK (length (defender_pending_colors app)) \<and>
         cookies (defender_drop_step app env) = cookies app \<and>
         counts (defender_drop_step app env) = counts app"
  using assms defender_drain_pending[of 0 env app] defender_drain_calls[of 0 env app]
    defender_drain_rejecting[of app 0 env]
  by (simp add: defender_drop_step_def)

theorem lossy_defender_drain_witness:
  "def_auto_drop full_app \<and> spawn_rejects full_app \<and>
   defender_pending_colors (defender_drop_step full_app (\<lambda>k. demo_draws)) = [''orange'', ''red''] \<and>
   length (cookies (defender_drop_step full_app (\<lambda>k. demo_draws))) = 210 \<and>
   spawn_calls (defender_drop_step full_app (\<lambda>k. demo_draws)) = 6"
proof -
  have a: "def_auto_drop full_app" by (simp add: full_app_def App_init_def Let_def)
  have p: "defender_pending_colors full_app = [''red'', ''orange'', ''yellow'', ''purple'',
                           ''red'', ''red'', ''orange'', ''red'']"
     "spawn_calls full_app = 0" "length (cookies full_app) = 210"
    by (simp_all add: full_app_def App_init_def Let_def)
  show ?thesis
    using lossy_defender_drain[OF a full_app_rejects, of "\<lambda>k. demo_draws"] a full_app_rejects
    by (simp add: p MAX_DROPS_PER_TICK_def)
qed

subsection \<open>Pairwise contact resolution\<close>

lemma contact_delta_degenerate:
  assumes "(pos_x b - pos_x a) * (pos_x b - pos_x a) + (pos_y b - pos_y a) * (pos_y b - pos_y a) \<le> 1 / 10 ^ 9"
  shows "contact_delta a b u = (cos (u * tau) * (1 / 100), sin (u * tau) * (1 / 100))"
  using assms by (simp add: contact_delta_def Let_def)

lemma contact_delta_regular:
  assumes "\<not> (pos_x b - pos_x a) * (pos_x b - pos_x a) + (pos_y b - pos_y a) * (pos_y b - pos_y a) \<le> 1 / 10 ^ 9"
  shows "contact_delta a b u = (pos_x b - pos_x a, pos_y b - pos_y a)"
  using assms by (simp add: contact_delta_def Let_def)

lemma unit_vector_scaled:
  "(cos t * (1 / 100)) * (cos t * (1 / 100)) + (sin t * (1 / 100)) * (sin t * (1 / 100)) = (1 / 10 ^ 4 :: real)"
proof -
  have "(cos t * (1 / 100)) * (cos t * (1 / 100)) + (sin t * (1 / 100)) * (sin t * (1 / 100))
        = ((cos t)\<^sup>2 + (sin t)\<^sup>2) * (1 / 10 ^ 4)"
    by (simp add: power2_eq_square algebra_simps)
  then show ?thesis by simp
qed

lemma contact_delta_pos:
  assumes "contact_delta a b u = (dx, dy)"
  shows "0 < dx * dx + dy * dy"
proof (cases "(pos_x b - pos_x a) * (pos_x b - pos_x a) + (pos_y b - pos_y a) * (pos_y b - pos_y a) \<le> 1 / 10 ^ 9")
  case True
  from contact_delta_degenerate[OF True, of u] assms
  have "dx = cos (u * tau) * (1 / 100)" "dy = sin (u * tau) * (1 / 100)" by simp_all
  then have "dx * dx + dy * dy = 1 / 10 ^ 4" by (simp only: unit_vector_scaled)
  then show ?thesis by simp
next
  case False
  from contact_delta_regular[OF False, of u] assms
  have "dx = pos_x b - pos_x a" "dy = pos_y b - pos_y a" by simp_all
  with False show ?thesis by simp
qed

text \<open>
The contact branch of \<open>resolve_circle_collision\<close>, with the square root and the quotients in place.
\<close>

lemma resolve_contact_eq:
  assumes d: "contact_delta a b u = (dx, dy)"
    and c: "\<not> dx * dx + dy * dy \<ge> (radius a + radius b) * (radius a + radius b)"
    and dst: "dst = sqrt (dx * dx + dy * dy)"
    and n: "nx = dx / dst" "ny = dy / dst"
    and ov: "overlap = radius a + radius b - dst"
    and a2: "a2 = (if asleep a \<and> \<not> asleep b then a
                  else if asleep b \<and> \<not> asleep a
                  then a\<lparr>pos_x := pos_x a - nx * overlap, pos_y := pos_y a - ny * overlap\<rparr>
                  else a\<lparr>pos_x := pos_x a - nx * (overlap * (1 / 2)),
                         pos_y := pos_y a - ny * (overlap * (1 / 2))\<rparr>)
                 \<lparr>asleep := asleep a \<and> \<not> overlap > 6 / 10,
                  sleep_counter := (if overlap > 6 / 10 then 0 else sleep_counter a)\<rparr>"
    and b2: "b2 = (if asleep a \<and> \<not> asleep b
                  then b\<lparr>pos_x := pos_x b + nx * overlap, pos_y := pos_y b + ny * overlap\<rparr>
                  else if asleep b \<and> \<not> asleep a then b
                  else b\<lparr>pos_x := pos_x b + nx * (overlap * (1 / 2)),
                         pos_y := pos_y b + ny * (overlap * (1 / 2))\<rparr>)
                 \<lparr>asleep := asleep b \<and> \<not> overlap > 6 / 10,
                  sleep_counter := (if overlap > 6 / 10 then 0 else sleep_counter b)\<rparr>"
    and vn: "vel_n = (vx b - vx a) * nx + (vy b - vy a) * ny"
    and j: "j = - (1 + COOKIE_RESTITUTION) * vel_n / 2"
  shows "resolve_circle_collision a b u =
           Inr (if vel_n > 0 then (a2, b2)
                else (if \<not> asleep a2 then a2\<lparr>vx := vx a - j * nx, vy := vy a - j * ny\<rparr> else a2,
                      if \<not> asleep b2 then b2\<lparr>vx := vx b + j * nx, vy := vy b + j * ny\<rparr> else b2))"
proof -
  have p: "0 < dx * dx + dy * dy" using contact_delta_pos[OF d] .
  then have sp: "0 < dst" unfolding dst by simp
  have s: "py_sqrt (dx * dx + dy * dy) = Inr dst" using p by (simp add: py_sqrt_def dst)
  have q: "py_div dx dst = Inr nx" "py_div dy dst = Inr ny"
    using sp by (simp_all add: py_div_def n)
  show ?thesis
    unfolding resolve_circle_collision_def d
    using c
    apply (simp add: s q Let_def ov[symmetric] split del: if_split)
    apply (simp add: a2 b2 vn j Let_def)
    done
qed

lemma resolve_no_contact:
  assumes "contact_delta a b u = (dx, dy)"
    and "dx * dx + dy * dy \<ge> (radius a + radius b) * (radius a + radius b)"
  shows "resolve_circle_collision a b u = Inr (a, b)"
  using assms by (simp add: resolve_circle_collision_def Let_def)

lemma resolve_total: "\<exists>a' b'. resolve_circle_collision a b u = Inr (a', b')"
proof -
  obtain dx dy where d: "contact_delta a b u = (dx, dy)" by (cases "contact_delta a b u")
  show ?thesis
  proof (cases "dx * dx + dy * dy \<ge> (radius a + radius b) * (radius a + radius b)")
    case True
    then show ?thesis using resolve_no_contact[OF d] by blast
  next
    case False
    from resolve_contact_eq[OF d False refl refl refl refl refl refl refl refl]
    show ?thesis by (metis surj_pair)
  qed
qed

lemma unit_normal:
  assumes "0 < dx * dx + dy * (dy :: real)"
  shows "(dx / sqrt (dx * dx + dy * dy))\<^sup>2 + (dy / sqrt (dx * dx + dy * dy))\<^sup>2 = 1"
proof -
  define S where "S = dx * dx + dy * dy"
  have sp: "0 < S" using assms by (simp only: S_def)
  have s2: "(sqrt S)\<^sup>2 = S" using sp by simp
  have "(dx / sqrt S)\<^sup>2 + (dy / sqrt S)\<^sup>2 = (dx\<^sup>2 + dy\<^sup>2) / (sqrt S)\<^sup>2"
    by (simp only: power_divide add_divide_distrib)
  also have "\<dots> = S / S" unfolding s2 by (simp only: power2_eq_square S_def)
  also have "\<dots> = 1" using sp by simp
  finally show ?thesis by (simp only: S_def)
qed

text \<open>
  Claim C9 (degenerate-contact safety). \<open>resolve_circle_collision\<close> returns a result for
  every pair and every draw: no square root of a negative number and no division by zero
  is reached. The delta it works with has a positive length, so the contact normal is a
  unit vector, and when the squared distance of the centres is at most \<open>1e-9\<close> the delta
  is the vector of length \<open>0.01\<close> at the angle \<open>u * tau\<close> of the draw \<open>u\<close>.
\<close>

theorem degenerate_contact_safety:
  "(\<exists>a' b'. resolve_circle_collision a b u = Inr (a', b')) \<and>
   (case contact_delta a b u of (dx, dy) \<Rightarrow>
      0 < sqrt (dx * dx + dy * dy) \<and>
      (dx / sqrt (dx * dx + dy * dy))\<^sup>2 + (dy / sqrt (dx * dx + dy * dy))\<^sup>2 = 1) \<and>
   ((pos_x b - pos_x a) * (pos_x b - pos_x a) + (pos_y b - pos_y a) * (pos_y b - pos_y a)
       \<le> 1 / 10 ^ 9 \<longrightarrow>
    contact_delta a b u = (cos (u * tau) * (1 / 100), sin (u * tau) * (1 / 100)))"
proof (intro conjI impI)
  show "\<exists>a' b'. resolve_circle_collision a b u = Inr (a', b')" by (rule resolve_total)
next
  obtain dx dy where d: "contact_delta a b u = (dx, dy)" by (cases "contact_delta a b u")
  have p: "0 < dx * dx + dy * dy" using contact_delta_pos[OF d] .
  then have "0 < sqrt (dx * dx + dy * dy)" by simp
  then show "case contact_delta a b u of (dx, dy) \<Rightarrow>
      0 < sqrt (dx * dx + dy * dy) \<and>
      (dx / sqrt (dx * dx + dy * dy))\<^sup>2 + (dy / sqrt (dx * dx + dy * dy))\<^sup>2 = 1"
    using unit_normal[OF p] by (simp add: d)
next
  assume "(pos_x b - pos_x a) * (pos_x b - pos_x a) + (pos_y b - pos_y a) * (pos_y b - pos_y a)
       \<le> 1 / 10 ^ 9"
  then show "contact_delta a b u = (cos (u * tau) * (1 / 100), sin (u * tau) * (1 / 100))"
    by (rule contact_delta_degenerate)
qed

theorem degenerate_contact_safety_witness:
  "(\<exists>a' b'. resolve_circle_collision demo_cookie demo_cookie 0 = Inr (a', b')) \<and>
   contact_delta demo_cookie demo_cookie 0 = (1 / 100, 0)"
  using degenerate_contact_safety[of demo_cookie demo_cookie 0] by simp

lemma sqrt_rest: "sqrt (3481 / 4) = 59 / 2"
  by (rule real_sqrt_unique) (simp_all add: power2_eq_square)

lemma rest_delta: "contact_delta rest_a (rest_b\<lparr>asleep := False, vx := - 10\<rparr>) 0 = (59 / 2, 0)"
  by (simp add: contact_delta_def rest_a_def rest_b_def Let_def)

text \<open>
  Claim C7 (pairwise anchoring). For a pair in contact, with \<open>(nx, ny)\<close> the unit normal of
  the delta and \<open>overlap\<close> the sum of the radii minus its length: when exactly one of the
  two is asleep its position is unchanged and the other moves by \<open>overlap\<close> along the
  normal, away from it; when both or neither are asleep each moves by half of \<open>overlap\<close>,
  in opposite directions. Both are awake afterwards when \<open>overlap > 0.6\<close>, and keep their
  flag otherwise. The velocities change only when the relative velocity along the normal is
  negative, and then only for the members that are awake at that point, by the impulse
  \<open>j\<close> along the normal, with opposite signs.
\<close>

theorem pairwise_anchoring:
  assumes d: "contact_delta a b u = (dx, dy)"
    and contact: "dx * dx + dy * dy < (radius a + radius b) * (radius a + radius b)"
    and dst: "dst = sqrt (dx * dx + dy * dy)"
    and n: "nx = dx / dst" "ny = dy / dst"
    and ov: "overlap = radius a + radius b - dst"
    and vn: "vel_n = (vx b - vx a) * nx + (vy b - vy a) * ny"
    and j: "j = - (1 + COOKIE_RESTITUTION) * vel_n / 2"
    and res: "resolve_circle_collision a b u = Inr (a', b')"
  shows "nx\<^sup>2 + ny\<^sup>2 = 1 \<and>
         (0 \<le> radius a + radius b \<longrightarrow> 0 < overlap) \<and>
         (asleep a \<and> \<not> asleep b \<longrightarrow>
            pos_x a' = pos_x a \<and> pos_y a' = pos_y a \<and>
            pos_x b' = pos_x b + nx * overlap \<and> pos_y b' = pos_y b + ny * overlap) \<and>
         (asleep b \<and> \<not> asleep a \<longrightarrow>
            pos_x b' = pos_x b \<and> pos_y b' = pos_y b \<and>
            pos_x a' = pos_x a - nx * overlap \<and> pos_y a' = pos_y a - ny * overlap) \<and>
         (asleep a = asleep b \<longrightarrow>
            pos_x a' = pos_x a - nx * (overlap / 2) \<and> pos_y a' = pos_y a - ny * (overlap / 2) \<and>
            pos_x b' = pos_x b + nx * (overlap / 2) \<and> pos_y b' = pos_y b + ny * (overlap / 2)) \<and>
         asleep a' = (asleep a \<and> overlap \<le> 6 / 10) \<and>
         asleep b' = (asleep b \<and> overlap \<le> 6 / 10) \<and>
         (vel_n \<ge> 0 \<longrightarrow> vx a' = vx a \<and> vy a' = vy a \<and> vx b' = vx b \<and> vy b' = vy b) \<and>
         (vel_n < 0 \<longrightarrow>
            (if asleep a' then vx a' = vx a \<and> vy a' = vy a
             else vx a' = vx a - j * nx \<and> vy a' = vy a - j * ny) \<and>
            (if asleep b' then vx b' = vx b \<and> vy b' = vy b
             else vx b' = vx b + j * nx \<and> vy b' = vy b + j * ny))"
proof -
  have c: "\<not> dx * dx + dy * dy \<ge> (radius a + radius b) * (radius a + radius b)"
    using contact by simp
  have p: "0 < dx * dx + dy * dy" using contact_delta_pos[OF d] .
  have un: "nx\<^sup>2 + ny\<^sup>2 = 1" unfolding n dst by (rule unit_normal[OF p])
  have ovp: "0 < overlap" if "0 \<le> radius a + radius b"
  proof -
    have "dst < radius a + radius b"
      unfolding dst using contact that
      by (metis power2_eq_square real_less_lsqrt)
    then show ?thesis by (simp add: ov)
  qed
  have j0: "j = 0" if "vel_n = 0" using that by (simp add: j)
  define a2 where "a2 = (if asleep a \<and> \<not> asleep b then a
                  else if asleep b \<and> \<not> asleep a
                  then a\<lparr>pos_x := pos_x a - nx * overlap, pos_y := pos_y a - ny * overlap\<rparr>
                  else a\<lparr>pos_x := pos_x a - nx * (overlap * (1 / 2)),
                         pos_y := pos_y a - ny * (overlap * (1 / 2))\<rparr>)
                 \<lparr>asleep := asleep a \<and> \<not> overlap > 6 / 10,
                  sleep_counter := (if overlap > 6 / 10 then 0 else sleep_counter a)\<rparr>"
  define b2 where "b2 = (if asleep a \<and> \<not> asleep b
                  then b\<lparr>pos_x := pos_x b + nx * overlap, pos_y := pos_y b + ny * overlap\<rparr>
                  else if asleep b \<and> \<not> asleep a then b
                  else b\<lparr>pos_x := pos_x b + nx * (overlap * (1 / 2)),
                         pos_y := pos_y b + ny * (overlap * (1 / 2))\<rparr>)
                 \<lparr>asleep := asleep b \<and> \<not> overlap > 6 / 10,
                  sleep_counter := (if overlap > 6 / 10 then 0 else sleep_counter b)\<rparr>"
  have r: "(a', b') = (if vel_n > 0 then (a2, b2)
                else (if \<not> asleep a2 then a2\<lparr>vx := vx a - j * nx, vy := vy a - j * ny\<rparr> else a2,
                      if \<not> asleep b2 then b2\<lparr>vx := vx b + j * nx, vy := vy b + j * ny\<rparr> else b2))"
    using resolve_contact_eq[OF d c dst n ov a2_def b2_def vn j] res by simp
  have pa: "pos_x a' = pos_x a2" "pos_y a' = pos_y a2" "asleep a' = asleep a2"
    and pb: "pos_x b' = pos_x b2" "pos_y b' = pos_y b2" "asleep b' = asleep b2"
    using r by (auto split: if_splits)
  have v2: "vx a2 = vx a" "vy a2 = vy a" "vx b2 = vx b" "vy b2 = vy b"
    by (simp_all add: a2_def b2_def)
  have sl: "asleep a2 = (asleep a \<and> overlap \<le> 6 / 10)" "asleep b2 = (asleep b \<and> overlap \<le> 6 / 10)"
    by (auto simp: a2_def b2_def)
  have pos1: "asleep a \<and> \<not> asleep b \<longrightarrow>
            pos_x a2 = pos_x a \<and> pos_y a2 = pos_y a \<and>
            pos_x b2 = pos_x b + nx * overlap \<and> pos_y b2 = pos_y b + ny * overlap"
    by (simp add: a2_def b2_def)
  have pos2: "asleep b \<and> \<not> asleep a \<longrightarrow>
            pos_x b2 = pos_x b \<and> pos_y b2 = pos_y b \<and>
            pos_x a2 = pos_x a - nx * overlap \<and> pos_y a2 = pos_y a - ny * overlap"
    by (auto simp: a2_def b2_def)
  have pos3: "asleep a = asleep b \<longrightarrow>
            pos_x a2 = pos_x a - nx * (overlap / 2) \<and> pos_y a2 = pos_y a - ny * (overlap / 2) \<and>
            pos_x b2 = pos_x b + nx * (overlap / 2) \<and> pos_y b2 = pos_y b + ny * (overlap / 2)"
    by (auto simp: a2_def b2_def)
  have vel0: "vel_n \<ge> 0 \<longrightarrow> vx a' = vx a \<and> vy a' = vy a \<and> vx b' = vx b \<and> vy b' = vy b"
  proof
    assume "vel_n \<ge> 0"
    then consider "vel_n > 0" | "vel_n = 0" by linarith
    then show "vx a' = vx a \<and> vy a' = vy a \<and> vx b' = vx b \<and> vy b' = vy b"
    proof cases
      case 1
      then show ?thesis using r v2 by simp
    next
      case 2
      then show ?thesis using r v2 j0[OF 2] by (auto split: if_splits)
    qed
  qed
  have vel1: "vel_n < 0 \<longrightarrow>
            (if asleep a' then vx a' = vx a \<and> vy a' = vy a
             else vx a' = vx a - j * nx \<and> vy a' = vy a - j * ny) \<and>
            (if asleep b' then vx b' = vx b \<and> vy b' = vy b
             else vx b' = vx b + j * nx \<and> vy b' = vy b + j * ny)"
    using r v2 by (auto split: if_splits)
  show ?thesis
    using un ovp pos1 pos2 pos3 vel0 vel1 sl by (simp only: pa pb) blast
qed

theorem pairwise_anchoring_witness:
  "\<exists>a' b'. resolve_circle_collision rest_a (rest_b\<lparr>asleep := False, vx := - 10\<rparr>) 0 = Inr (a', b') \<and>
     pos_x a' = pos_x rest_a \<and> pos_y a' = pos_y rest_a \<and> asleep a' \<and> vx a' = 0 \<and>
     pos_x b' = pos_x rest_b + 1 / 2 \<and> pos_y b' = pos_y rest_b \<and> \<not> asleep b' \<and>
     vx b' = - 10 + 11 / 2"
proof -
  obtain a' b' where r: "resolve_circle_collision rest_a (rest_b\<lparr>asleep := False, vx := - 10\<rparr>) 0 = Inr (a', b')"
    using resolve_total by blast
  have c: "(59 / 2) * (59 / 2) + 0 * 0
             < (radius rest_a + radius (rest_b\<lparr>asleep := False, vx := - 10\<rparr>))
               * (radius rest_a + radius (rest_b\<lparr>asleep := False, vx := - 10\<rparr>) :: real)"
    by (simp add: rest_a_def rest_b_def)
  have s: "59 / 2 = sqrt ((59 / 2) * (59 / 2) + 0 * 0)" using sqrt_rest by simp
  have n: "1 = (59 / 2) / (59 / 2 :: real)" "0 = 0 / (59 / 2 :: real)" by simp_all
  have o: "1 / 2 = radius rest_a + radius (rest_b\<lparr>asleep := False, vx := - 10\<rparr>) - 59 / 2"
    by (simp add: rest_a_def rest_b_def)
  have v: "- 10 = (vx (rest_b\<lparr>asleep := False, vx := - 10\<rparr>) - vx rest_a) * 1
                   + (vy (rest_b\<lparr>asleep := False, vx := - 10\<rparr>) - vy rest_a) * 0"
    by (simp add: rest_a_def rest_b_def)
  have j: "11 / 2 = - (1 + COOKIE_RESTITUTION) * (- 10) / 2"
    by (simp add: COOKIE_RESTITUTION_def)
  have f: "asleep rest_a" "vx rest_a = 0" by (simp_all add: rest_a_def)
  show ?thesis
    using pairwise_anchoring[OF rest_delta c s n o v j r] r f
    by (intro exI[of _ a'] exI[of _ b']) simp
qed

subsection \<open>Boundary collision\<close>

text \<open>
The branches of \<open>collide_cookie\<close>, with its intermediate values named.
\<close>

lemma collide_cookie_eq:
  assumes a: "a = max 5 (axis_a col - radius c)"
    and b: "b = max 5 (axis_b col - radius c)"
    and dx: "dx = pos_x c - cx col"
    and dy: "dy = pos_y c - cy col"
    and s2: "s2 = dx / a * (dx / a) + dy / b * (dy / b)"
    and s: "s = (if s2 > 1 / 10 ^ 12 then sqrt s2 else 1)"
    and nlen: "nlen = hypot (dx / (a * a)) (dy / (b * b))"
    and nx: "nx = dx / (a * a) / nlen"
    and ny: "ny = dy / (b * b) / nlen"
    and vdotn: "vdotn = vx c * nx + vy c * ny"
  shows "collide_cookie col c =
     (if pos_y c < rim_y col - radius c * (6 / 10)
      then c\<lparr>pos_x := opening_clamp_x col (pos_x c) (radius c)\<rparr>
      else if s2 \<le> 1
      then (if pos_y c < rim_y col + radius c
            then c\<lparr>pos_x := opening_clamp_x col (pos_x c) (radius c)\<rparr>
            else c)
      else if nlen < 1 / 10 ^ 9
      then c\<lparr>pos_x := cx col + dx / s, pos_y := cy col + dy / s\<rparr>
      else c\<lparr>pos_x := (if cy col + dy / s < rim_y col + radius c
                         then opening_clamp_x col (cx col + dx / s) (radius c)
                         else cx col + dx / s),
              pos_y := cy col + dy / s,
              vx := (vx c - (1 + BOWL_RESTITUTION) * vdotn * nx) * (99 / 100),
              vy := (vy c - (1 + BOWL_RESTITUTION) * vdotn * ny) * (995 / 1000)\<rparr>)"
  unfolding collide_cookie_def Let_def
  unfolding a[symmetric] b[symmetric] dx[symmetric] dy[symmetric]
  unfolding s2[symmetric]
  unfolding s[symmetric]
  unfolding nlen[symmetric]
  unfolding nx[symmetric] ny[symmetric]
  by (simp add: vdotn)

text \<open>
What \<open>collide_cookie\<close> leaves alone, and what it does to a body at rest.
\<close>

lemma collide_cookie_frame:
  "asleep (collide_cookie col c) = asleep c \<and>
   radius (collide_cookie col c) = radius c \<and>
   sleep_counter (collide_cookie col c) = sleep_counter c \<and>
   underwater (collide_cookie col c) = underwater c \<and>
   (vx c = 0 \<and> vy c = 0 \<longrightarrow> vx (collide_cookie col c) = 0 \<and> vy (collide_cookie col c) = 0)"
proof -
  define a where "a = max 5 (axis_a col - radius c)"
  define b where "b = max 5 (axis_b col - radius c)"
  define dx where "dx = pos_x c - cx col"
  define dy where "dy = pos_y c - cy col"
  define s2 where "s2 = dx / a * (dx / a) + dy / b * (dy / b)"
  define s where "s = (if s2 > 1 / 10 ^ 12 then sqrt s2 else 1)"
  define nlen where "nlen = hypot (dx / (a * a)) (dy / (b * b))"
  define nx where "nx = dx / (a * a) / nlen"
  define ny where "ny = dy / (b * b) / nlen"
  define vdotn where "vdotn = vx c * nx + vy c * ny"
  note e = collide_cookie_eq[OF a_def b_def dx_def dy_def s2_def s_def nlen_def nx_def ny_def vdotn_def]
  have v: "vx c = 0 \<and> vy c = 0 \<longrightarrow> vdotn = 0" by (simp add: vdotn_def)
  show ?thesis unfolding e using v by simp
qed

lemma asleep_collide [simp]: "asleep (collide_cookie col c) = asleep c"
  using collide_cookie_frame by blast

subsection \<open>The sleep invariant\<close>

lemma sleep_inv_collide: "sleep_inv c \<Longrightarrow> sleep_inv (collide_cookie col c)"
  using collide_cookie_frame[of col c] by (auto simp: sleep_inv_def)

lemma sleep_inv_underwater: "sleep_inv c \<Longrightarrow> sleep_inv (apply_underwater_mode app c)"
  by (auto simp: sleep_inv_def apply_underwater_mode_def Let_def)

lemma asleep_underwater [simp]: "asleep (apply_underwater_mode app c) = asleep c"
  by (auto simp: apply_underwater_mode_def Let_def)

lemma sleep_inv_awake: "\<not> asleep c \<Longrightarrow> sleep_inv c"
  by (simp add: sleep_inv_def)

lemma integrate_cookie_asleep:
  "asleep c \<Longrightarrow> integrate_cookie app sub_dt c = apply_underwater_mode app c"
  by (simp add: integrate_cookie_def Let_def)

lemma asleep_integrate [simp]: "asleep (integrate_cookie app sub_dt c) = asleep c"
proof (cases "asleep c")
  case True
  then show ?thesis by (simp add: integrate_cookie_asleep)
next
  case False
  then have "\<not> asleep (apply_underwater_mode app c)" by simp
  then show ?thesis using False
    unfolding integrate_cookie_def Let_def by (simp only: if_False asleep_collide) simp
qed

lemma sleep_inv_integrate: "sleep_inv c \<Longrightarrow> sleep_inv (integrate_cookie app sub_dt c)"
proof (cases "asleep c")
  case True
  assume "sleep_inv c"
  then show ?thesis using True by (simp add: integrate_cookie_asleep sleep_inv_underwater)
next
  case False
  then have "\<not> asleep (integrate_cookie app sub_dt c)" by simp
  then show ?thesis by (rule sleep_inv_awake)
qed

lemma sleep_inv_sleep_update: "sleep_inv c \<Longrightarrow> sleep_inv (sleep_update app c)"
  by (auto simp: sleep_inv_def sleep_update_def Let_def)

lemma sleep_inv_resolve:
  assumes "resolve_circle_collision a b u = Inr (a', b')"
  shows "(sleep_inv a \<longrightarrow> sleep_inv a') \<and> (sleep_inv b \<longrightarrow> sleep_inv b')"
proof -
  obtain dx dy where d: "contact_delta a b u = (dx, dy)" by (cases "contact_delta a b u")
  show ?thesis
  proof (cases "dx * dx + dy * dy \<ge> (radius a + radius b) * (radius a + radius b)")
    case True
    then show ?thesis using resolve_no_contact[OF d True] assms by simp
  next
    case False
    define dst where "dst = sqrt (dx * dx + dy * dy)"
    define nx where "nx = dx / dst"
    define ny where "ny = dy / dst"
    define overlap where "overlap = radius a + radius b - dst"
    define a2 where "a2 = (if asleep a \<and> \<not> asleep b then a
                  else if asleep b \<and> \<not> asleep a
                  then a\<lparr>pos_x := pos_x a - nx * overlap, pos_y := pos_y a - ny * overlap\<rparr>
                  else a\<lparr>pos_x := pos_x a - nx * (overlap * (1 / 2)),
                         pos_y := pos_y a - ny * (overlap * (1 / 2))\<rparr>)
                 \<lparr>asleep := asleep a \<and> \<not> overlap > 6 / 10,
                  sleep_counter := (if overlap > 6 / 10 then 0 else sleep_counter a)\<rparr>"
    define b2 where "b2 = (if asleep a \<and> \<not> asleep b
                  then b\<lparr>pos_x := pos_x b + nx * overlap, pos_y := pos_y b + ny * overlap\<rparr>
                  else if asleep b \<and> \<not> asleep a then b
                  else b\<lparr>pos_x := pos_x b + nx * (overlap * (1 / 2)),
                         pos_y := pos_y b + ny * (overlap * (1 / 2))\<rparr>)
                 \<lparr>asleep := asleep b \<and> \<not> overlap > 6 / 10,
                  sleep_counter := (if overlap > 6 / 10 then 0 else sleep_counter b)\<rparr>"
    define vel_n where "vel_n = (vx b - vx a) * nx + (vy b - vy a) * ny"
    define j where "j = - (1 + COOKIE_RESTITUTION) * vel_n / 2"
    have ia: "sleep_inv a \<longrightarrow> sleep_inv a2" and ib: "sleep_inv b \<longrightarrow> sleep_inv b2"
      by (auto simp: sleep_inv_def a2_def b2_def)
    have r: "(a', b') = (if vel_n > 0 then (a2, b2)
                else (if \<not> asleep a2 then a2\<lparr>vx := vx a - j * nx, vy := vy a - j * ny\<rparr> else a2,
                      if \<not> asleep b2 then b2\<lparr>vx := vx b + j * nx, vy := vy b + j * ny\<rparr> else b2))"
      using resolve_contact_eq[OF d False dst_def nx_def ny_def overlap_def a2_def b2_def vel_n_def j_def]
        assms by simp
    have "a' = a2 \<or> \<not> asleep a'" "b' = b2 \<or> \<not> asleep b'"
      using r by (auto split: if_splits)
    then show ?thesis using ia ib sleep_inv_awake by blast
  qed
qed

lemma list_all_update2:
  assumes "list_all P cs" and "P a" and "P b"
  shows "list_all P (cs[i := a, j := b])"
proof -
  have "set (cs[i := a, j := b]) \<subseteq> insert b (insert a (set cs))"
    by (meson insert_mono order_trans set_update_subset_insert)
  then show ?thesis using assms by (auto simp: list_all_iff)
qed

text \<open>
The loops of the step return a result, keep the number of cookies and keep the invariant.
\<close>

lemma resolve_pairs_total:
  assumes "\<forall>(k, l) \<in> set ps. k < length cs \<and> l < length cs"
  shows "\<exists>cs'. resolve_pairs ps rnd cs = Inr cs' \<and> length cs' = length cs \<and>
               (list_all sleep_inv cs \<longrightarrow> list_all sleep_inv cs')"
  using assms
proof (induction ps arbitrary: cs)
  case Nil
  then show ?case by simp
next
  case (Cons p ps)
  obtain i j where p: "p = (i, j)" by (cases p)
  have ij: "i < length cs" "j < length cs" using Cons.prems p by auto
  obtain a' b' where r: "resolve_circle_collision (cs ! i) (cs ! j) (rnd i j) = Inr (a', b')"
    using resolve_total by blast
  have "\<forall>(k, l) \<in> set ps. k < length (cs[i := a', j := b']) \<and> l < length (cs[i := a', j := b'])"
    using Cons.prems by auto
  from Cons.IH[OF this] obtain cs' where
    c: "resolve_pairs ps rnd (cs[i := a', j := b']) = Inr cs'"
       "length cs' = length cs"
       "list_all sleep_inv (cs[i := a', j := b']) \<longrightarrow> list_all sleep_inv cs'"
    by auto
  have "list_all sleep_inv cs \<longrightarrow> list_all sleep_inv (cs[i := a', j := b'])"
  proof
    assume h: "list_all sleep_inv cs"
    then have "sleep_inv (cs ! i)" "sleep_inv (cs ! j)" using ij by (simp_all add: list_all_length)
    then have "sleep_inv a'" "sleep_inv b'" using sleep_inv_resolve[OF r] by simp_all
    then show "list_all sleep_inv (cs[i := a', j := b'])" using h by (intro list_all_update2)
  qed
  then show ?case using c by (simp add: p r)
qed

lemma index_pairs_range: "\<forall>(k, l) \<in> set (index_pairs n). k < n \<and> l < n"
  by (auto simp: index_pairs_def)

lemma collision_passes_total:
  "\<exists>cs'. collision_passes ps rnd cs = Inr cs' \<and> length cs' = length cs \<and>
         (list_all sleep_inv cs \<longrightarrow> list_all sleep_inv cs')"
proof (induction ps arbitrary: cs)
  case Nil
  then show ?case by simp
next
  case (Cons p ps)
  obtain cs1 where c1: "resolve_pairs (index_pairs (length cs)) (rnd p) cs = Inr cs1"
      "length cs1 = length cs" "list_all sleep_inv cs \<longrightarrow> list_all sleep_inv cs1"
    using resolve_pairs_total[OF index_pairs_range, of cs "rnd p"] by auto
  obtain cs' where c2: "collision_passes ps rnd cs1 = Inr cs'" "length cs' = length cs1"
      "list_all sleep_inv cs1 \<longrightarrow> list_all sleep_inv cs'"
    using Cons.IH[of cs1] by auto
  show ?case using c1 c2 by simp
qed

lemma substeps_total:
  "\<exists>cs'. substeps ks app sub_dt rnd cs = Inr cs' \<and> length cs' = length cs \<and>
         (list_all sleep_inv cs \<longrightarrow> list_all sleep_inv cs')"
proof (induction ks arbitrary: cs)
  case Nil
  then show ?case by simp
next
  case (Cons k ks)
  define cs0 where "cs0 = map (integrate_cookie app sub_dt) cs"
  have l0: "length cs0 = length cs" by (simp add: cs0_def)
  have i: "list_all sleep_inv cs \<longrightarrow> list_all sleep_inv cs0"
    by (auto simp: cs0_def list_all_iff sleep_inv_integrate)
  obtain cs1 where c1: "collision_passes [0..<COLLISION_PASSES] (rnd k) cs0 = Inr cs1"
      "length cs1 = length cs0" "list_all sleep_inv cs0 \<longrightarrow> list_all sleep_inv cs1"
    using collision_passes_total[of "[0..<COLLISION_PASSES]" "rnd k" cs0] by auto
  obtain cs' where c2: "substeps ks app sub_dt rnd cs1 = Inr cs'" "length cs' = length cs1"
      "list_all sleep_inv cs1 \<longrightarrow> list_all sleep_inv cs'"
    using Cons.IH[of cs1] by auto
  have "substeps (k # ks) app sub_dt rnd cs = Inr cs'"
    using c1(1) c2(1) by (simp add: cs0_def)
  then show ?case using c1 c2 i l0 by auto
qed

lemma step_total:
  "\<exists>app'. step app dt rnd = Inr app' \<and> length (cookies app') = length (cookies app) \<and>
          collider app' = collider app \<and>
          (list_all sleep_inv (cookies app) \<longrightarrow> list_all sleep_inv (cookies app'))"
proof -
  obtain cs where c: "substeps [0..<SUBSTEPS] app (dt / real SUBSTEPS) rnd (cookies app) = Inr cs"
      "length cs = length (cookies app)"
      "list_all sleep_inv (cookies app) \<longrightarrow> list_all sleep_inv cs"
    using substeps_total[of "[0..<SUBSTEPS]" app "dt / real SUBSTEPS" rnd "cookies app"] by auto
  have "list_all sleep_inv cs \<longrightarrow> list_all sleep_inv (map (sleep_update app) cs)"
    by (auto simp: list_all_iff sleep_inv_sleep_update)
  then show ?thesis using c by (simp add: step_def Let_def)
qed

lemma sleep_inv_spawn:
  "list_all sleep_inv (cookies app) \<Longrightarrow> list_all sleep_inv (cookies (spawn_cookie app color d))"
  by (auto simp: spawn_cookie_def Let_def sleep_inv_def)

lemma sleep_inv_shake: "list_all sleep_inv (cookies (shake app dr))"
  by (auto simp: shake_def list_all_iff sleep_inv_def)

lemma sleep_inv_spawn_fold:
  "list_all sleep_inv (cookies s0) \<Longrightarrow>
   list_all sleep_inv (cookies (foldl (\<lambda>s k. spawn_cookie s (auto_pick_color s (fst (env k))) (snd (env k))) s0 ks))"
  by (induction ks arbitrary: s0) (simp_all add: sleep_inv_spawn)

lemma sleep_inv_auto_drop:
  assumes "list_all sleep_inv (cookies app)"
  shows "list_all sleep_inv (cookies (auto_drop_step app dt env))"
  using assms by (auto simp: auto_drop_step_def Let_def intro!: sleep_inv_spawn_fold)

lemma sleep_inv_defender_drain:
  "list_all sleep_inv (cookies app) \<Longrightarrow> list_all sleep_inv (cookies (defender_drain k env app))"
proof (induction k env app rule: defender_drain.induct)
  case (1 dropped env app)
  show ?case
  proof (cases "defender_pending_colors app \<noteq> [] \<and> dropped < MAX_DROPS_PER_TICK")
    case True
    have "list_all sleep_inv (cookies (spawn_cookie
            (app\<lparr>defender_pending_colors := tl (defender_pending_colors app)\<rparr>)
            (hd (defender_pending_colors app)) (env dropped)))"
      using "1.prems" by (intro sleep_inv_spawn) simp
    from "1.IH"[OF True refl refl refl this] True show ?thesis
      by (simp add: defender_drain_go)
  next
    case False
    then show ?thesis using "1.prems" by (auto simp: defender_drain_stop)
  qed
qed

lemma sleep_inv_defender_drop:
  "list_all sleep_inv (cookies app) \<Longrightarrow> list_all sleep_inv (cookies (defender_drop_step app env))"
  by (simp add: defender_drop_step_def sleep_inv_defender_drain)

lemma loop_frame_total:
  assumes "list_all sleep_inv (cookies app)"
  shows "\<exists>app'. loop_frame app elapsed env denv rnd = Inr app' \<and> list_all sleep_inv (cookies app')"
proof -
  define app3 where "app3 = defender_drop_step
      (auto_drop_step (app\<lparr>sim_t := sim_t app + frame_dt elapsed\<rparr>) (frame_dt elapsed) env) denv"
  have "list_all sleep_inv (cookies app3)"
    unfolding app3_def using assms
    by (intro sleep_inv_defender_drop sleep_inv_auto_drop) simp
  then show ?thesis
    using step_total[of app3 "frame_dt elapsed" rnd]
    by (auto simp: loop_frame_def Let_def app3_def)
qed

text \<open>
  Claim C1 (sleep invariant). If every cookie satisfies \<open>asleep \<longrightarrow> (vx, vy) = (0, 0)\<close>, then
  so does every cookie after a spawn, a shake, a clear, the underwater regime update, the
  boundary collision, the integration of a substep, the sleep update, the contact
  resolution of any pair, any number of collision passes, any number of substeps, a whole
  step and a whole frame; the fallible ones of these return a result.
\<close>

theorem sleep_invariant:
  assumes "list_all sleep_inv (cookies app)"
  shows "list_all sleep_inv (cookies (spawn_cookie app color d)) \<and>
         list_all sleep_inv (cookies (shake app dr)) \<and>
         list_all sleep_inv (cookies (clear app)) \<and>
         list_all sleep_inv (map (apply_underwater_mode app) (cookies app)) \<and>
         list_all sleep_inv (map (collide_cookie (collider app)) (cookies app)) \<and>
         list_all sleep_inv (map (integrate_cookie app sub_dt) (cookies app)) \<and>
         list_all sleep_inv (map (sleep_update app) (cookies app)) \<and>
         (\<forall>i j. i < length (cookies app) \<and> j < length (cookies app) \<longrightarrow>
            (\<exists>a' b'. resolve_circle_collision (cookies app ! i) (cookies app ! j) u = Inr (a', b')
                      \<and> sleep_inv a' \<and> sleep_inv b')) \<and>
         (\<exists>cs. collision_passes ps rnd2 (cookies app) = Inr cs \<and> list_all sleep_inv cs) \<and>
         (\<exists>cs. substeps ks app sub_dt rnd (cookies app) = Inr cs \<and> list_all sleep_inv cs) \<and>
         (\<exists>app'. step app dt rnd = Inr app' \<and> list_all sleep_inv (cookies app')) \<and>
         (\<exists>app'. loop_frame app elapsed env denv rnd = Inr app' \<and> list_all sleep_inv (cookies app'))"
proof (intro conjI allI impI)
  show "list_all sleep_inv (cookies (spawn_cookie app color d))"
    using assms by (rule sleep_inv_spawn)
  show "list_all sleep_inv (cookies (shake app dr))" by (rule sleep_inv_shake)
  show "list_all sleep_inv (cookies (clear app))" by (simp add: clear_def)
  show "list_all sleep_inv (map (apply_underwater_mode app) (cookies app))"
    using assms by (auto simp: list_all_iff sleep_inv_underwater)
  show "list_all sleep_inv (map (collide_cookie (collider app)) (cookies app))"
    using assms by (auto simp: list_all_iff sleep_inv_collide)
  show "list_all sleep_inv (map (integrate_cookie app sub_dt) (cookies app))"
    using assms by (auto simp: list_all_iff sleep_inv_integrate)
  show "list_all sleep_inv (map (sleep_update app) (cookies app))"
    using assms by (auto simp: list_all_iff sleep_inv_sleep_update)
  show "\<exists>cs. collision_passes ps rnd2 (cookies app) = Inr cs \<and> list_all sleep_inv cs"
    using assms collision_passes_total[of ps rnd2 "cookies app"] by auto
  show "\<exists>cs. substeps ks app sub_dt rnd (cookies app) = Inr cs \<and> list_all sleep_inv cs"
    using assms substeps_total[of ks app sub_dt rnd "cookies app"] by auto
  show "\<exists>app'. step app dt rnd = Inr app' \<and> list_all sleep_inv (cookies app')"
    using assms step_total[of app dt rnd] by auto
  show "\<exists>app'. loop_frame app elapsed env denv rnd = Inr app' \<and> list_all sleep_inv (cookies app')"
    using assms by (rule loop_frame_total)
next
  fix i j assume ij: "i < length (cookies app) \<and> j < length (cookies app)"
  obtain a' b' where r: "resolve_circle_collision (cookies app ! i) (cookies app ! j) u = Inr (a', b')"
    using resolve_total by blast
  have "sleep_inv (cookies app ! i)" "sleep_inv (cookies app ! j)"
    using assms ij by (simp_all add: list_all_length)
  then show "\<exists>a' b'. resolve_circle_collision (cookies app ! i) (cookies app ! j) u = Inr (a', b')
                      \<and> sleep_inv a' \<and> sleep_inv b'"
    using sleep_inv_resolve[OF r] r by blast
qed

theorem sleep_invariant_witness:
  "list_all sleep_inv (cookies rest_app) \<and>
   (\<exists>app'. step rest_app (1 / 30) (\<lambda>k p i j. 0) = Inr app' \<and> list_all sleep_inv (cookies app')) \<and>
   list_all sleep_inv (cookies (spawn_cookie rest_app ''red'' demo_draws))"
proof -
  have h: "list_all sleep_inv (cookies rest_app)"
    by (simp add: rest_app_def sleep_inv_def rest_a_def rest_b_def)
  show ?thesis
    using sleep_invariant[OF h, where dt = "1 / 30" and rnd = "\<lambda>k p i j. 0"
        and color = "''red''" and d = demo_draws] h
    by blast
qed

subsection \<open>Containment\<close>

lemma square_le_1_lower: "t * t \<le> (1::real) \<Longrightarrow> - 1 \<le> t"
  using abs_square_le_1[of t] by (simp add: power2_eq_square abs_le_iff)

lemma ratio_above:
  assumes "0 < (b::real)" and "dy / b * (dy / b) \<le> 1"
  shows "- b \<le> dy"
proof -
  have "- 1 \<le> dy / b" using assms(2) by (rule square_le_1_lower)
  then have "- 1 * b \<le> dy" using assms(1) by (simp add: pos_le_divide_eq)
  then show ?thesis by simp
qed

text \<open>
  Where the rim zone lies above the shrunk ellipse, \<open>collide_cookie\<close> keeps the height of a
  cookie in the funnel zone, leaves a cookie inside the shrunk ellipse as it is, and divides
  the offset of a cookie outside by the square root of its normalised squared distance.
\<close>

lemma collide_cookie_zones:
  assumes H: "rim_y col + radius c \<le> cy col - max 5 (axis_b col - radius c)"
  shows "pos_y c < rim_y col - radius c * (6 / 10) \<longrightarrow>
           pos_y (collide_cookie col c) = pos_y c \<and> radius (collide_cookie col c) = radius c"
    and "\<not> pos_y c < rim_y col - radius c * (6 / 10) \<and> ellipse_s2 col c \<le> 1 \<longrightarrow>
           collide_cookie col c = c"
    and "\<not> pos_y c < rim_y col - radius c * (6 / 10) \<and> 1 < ellipse_s2 col c \<longrightarrow>
           pos_x (collide_cookie col c) - cx col = (pos_x c - cx col) / sqrt (ellipse_s2 col c) \<and>
           pos_y (collide_cookie col c) - cy col = (pos_y c - cy col) / sqrt (ellipse_s2 col c) \<and>
           ellipse_s2 col (collide_cookie col c) = 1"
proof -
  define a where "a = max 5 (axis_a col - radius c)"
  define b where "b = max 5 (axis_b col - radius c)"
  define dx where "dx = pos_x c - cx col"
  define dy where "dy = pos_y c - cy col"
  define s2 where "s2 = dx / a * (dx / a) + dy / b * (dy / b)"
  define s where "s = (if s2 > 1 / 10 ^ 12 then sqrt s2 else 1)"
  define nlen where "nlen = hypot (dx / (a * a)) (dy / (b * b))"
  define nx where "nx = dx / (a * a) / nlen"
  define ny where "ny = dy / (b * b) / nlen"
  define vdotn where "vdotn = vx c * nx + vy c * ny"
  note e = collide_cookie_eq[OF a_def b_def dx_def dy_def s2_def s_def nlen_def nx_def ny_def vdotn_def]
  have ap: "0 < a" and bp: "0 < b" by (simp_all add: a_def b_def)
  have Hb: "rim_y col + radius c \<le> cy col - b" using H by (simp add: b_def)
  have s2e: "ellipse_s2 col c = s2"
    by (simp add: ellipse_s2_def Let_def s2_def a_def b_def dx_def dy_def)
  show "pos_y c < rim_y col - radius c * (6 / 10) \<longrightarrow>
           pos_y (collide_cookie col c) = pos_y c \<and> radius (collide_cookie col c) = radius c"
    unfolding e by simp
  show "\<not> pos_y c < rim_y col - radius c * (6 / 10) \<and> ellipse_s2 col c \<le> 1 \<longrightarrow>
           collide_cookie col c = c"
  proof
    assume h: "\<not> pos_y c < rim_y col - radius c * (6 / 10) \<and> ellipse_s2 col c \<le> 1"
    then have le: "s2 \<le> 1" by (simp add: s2e)
    have "dy / b * (dy / b) \<le> s2" by (simp add: s2_def)
    then have "dy / b * (dy / b) \<le> 1" using le by linarith
    then have "- b \<le> dy" using bp ratio_above by blast
    then have "\<not> pos_y c < rim_y col + radius c" using Hb by (simp add: dy_def)
    then show "collide_cookie col c = c" unfolding e using h le by simp
  qed
  show "\<not> pos_y c < rim_y col - radius c * (6 / 10) \<and> 1 < ellipse_s2 col c \<longrightarrow>
           pos_x (collide_cookie col c) - cx col = (pos_x c - cx col) / sqrt (ellipse_s2 col c) \<and>
           pos_y (collide_cookie col c) - cy col = (pos_y c - cy col) / sqrt (ellipse_s2 col c) \<and>
           ellipse_s2 col (collide_cookie col c) = 1"
  proof
    assume h: "\<not> pos_y c < rim_y col - radius c * (6 / 10) \<and> 1 < ellipse_s2 col c"
    then have s2p: "1 < s2" by (simp add: s2e)
    then have sv: "s = sqrt s2" by (simp add: s_def)
    have ss: "s * s = s2" using s2p by (simp add: sv)
    have proj: "(dx / s) / a * ((dx / s) / a) + (dy / s) / b * ((dy / s) / b) = 1"
    proof -
      have "(dx / s) / a * ((dx / s) / a) + (dy / s) / b * ((dy / s) / b)
              = (dx / a * (dx / a) + dy / b * (dy / b)) / (s * s)"
        by (simp add: add_divide_distrib mult.commute mult.left_commute)
      also have "\<dots> = s2 / s2" by (simp only: ss s2_def)
      also have "\<dots> = 1" using s2p by simp
      finally show ?thesis .
    qed
    have "(dy / s) / b * ((dy / s) / b) \<le> 1"
    proof -
      have "0 \<le> (dx / s) / a * ((dx / s) / a)" by simp
      then show ?thesis using proj by linarith
    qed
    then have "- b \<le> dy / s" using bp ratio_above by blast
    then have noclamp: "\<not> cy col + dy / s < rim_y col + radius c" using Hb by simp
    define c' where "c' = collide_cookie col c"
    have px: "pos_x c' = cx col + dx / s" and py: "pos_y c' = cy col + dy / s"
      and r: "radius c' = radius c"
      unfolding c'_def e using h s2p noclamp by simp_all
    have "ellipse_s2 col c' = 1"
      using proj by (simp add: ellipse_s2_def Let_def r px py a_def b_def)
    then show "pos_x (collide_cookie col c) - cx col = (pos_x c - cx col) / sqrt (ellipse_s2 col c) \<and>
           pos_y (collide_cookie col c) - cy col = (pos_y c - cy col) / sqrt (ellipse_s2 col c) \<and>
           ellipse_s2 col (collide_cookie col c) = 1"
      using px py by (simp add: c'_def[symmetric] s2e sv[symmetric] dx_def dy_def)
  qed
qed

lemma collide_contained_within:
  assumes H: "rim_y col + radius c \<le> cy col - max 5 (axis_b col - radius c)" and t: "0 \<le> tol"
  shows "contained_within tol col (collide_cookie col c)"
proof -
  note z = collide_cookie_zones[OF H]
  consider "pos_y c < rim_y col - radius c * (6 / 10)"
    | "\<not> pos_y c < rim_y col - radius c * (6 / 10)" "ellipse_s2 col c \<le> 1"
    | "\<not> pos_y c < rim_y col - radius c * (6 / 10)" "1 < ellipse_s2 col c"
    by linarith
  then show ?thesis
  proof cases
    case 1
    then show ?thesis using z(1) by (simp add: contained_within_def)
  next
    case 2
    then have "collide_cookie col c = c" using z(2) by simp
    then show ?thesis using 2 t by (simp add: contained_within_def)
  next
    case 3
    then have "ellipse_s2 col (collide_cookie col c) = 1" using z(3) by simp
    then show ?thesis using t by (simp add: contained_within_def)
  qed
qed

lemma radius_underwater [simp]: "radius (apply_underwater_mode app c) = radius c"
  by (auto simp: apply_underwater_mode_def Let_def)

lemma integrate_cookie_awake:
  assumes "\<not> asleep c"
  shows "\<exists>c6. integrate_cookie app sub_dt c = collide_cookie (collider app) c6 \<and>
              radius c6 = radius c"
proof -
  have n: "\<not> asleep (apply_underwater_mode app c)" using assms by simp
  show ?thesis
    unfolding integrate_cookie_def Let_def
    apply (simp only: n if_False)
    apply (rule exI, rule conjI, rule refl)
    apply simp
    done
qed

lemma app_rim_above:
  assumes "radius c \<le> 18"
  shows "rim_y (collider App_init) + radius c
           \<le> cy (collider App_init) - max 5 (axis_b (collider App_init) - radius c)"
  using assms by (simp add: app_collider_fields)

lemma rest_app_fields:
  "water_y rest_app = 18668 / 100" "collider rest_app = collider App_init"
  "cookies rest_app = [rest_a, rest_b]"
  by (simp_all add: rest_app_def App_init_def Let_def canvas_h_def)

lemma integrate_resting:
  assumes "asleep c" and "underwater c" and "18668 / 100 \<le> pos_y c"
  shows "integrate_cookie rest_app sub_dt c = c"
  using assms
  by (simp add: integrate_cookie_asleep apply_underwater_mode_def Let_def rest_app_fields)

lemma index_pairs_2: "index_pairs (Suc (Suc 0)) = [(0, Suc 0)]"
proof -
  have "[0..<Suc (Suc 0)] = [0, Suc 0]" "[Suc 0..<Suc (Suc 0)] = [Suc 0]"
    by (simp_all add: upt_rec)
  then show ?thesis by (simp add: index_pairs_def)
qed

lemma resolve_rest:
  "resolve_circle_collision rest_a rest_b u
     = Inr (rest_a_after, rest_b_after)"
proof -
  have d: "contact_delta rest_a rest_b u = (59 / 2, 0)"
    by (simp add: contact_delta_def rest_a_def rest_b_def Let_def)
  have c: "\<not> (59 / 2) * (59 / 2) + 0 * 0 \<ge> (radius rest_a + radius rest_b) * (radius rest_a + radius rest_b)"
    by (simp add: rest_a_def rest_b_def)
  have s: "59 / 2 = sqrt ((59 / 2) * (59 / 2) + 0 * 0)" using sqrt_rest by simp
  have n: "1 = (59 / 2) / (59 / 2 :: real)" "0 = 0 / (59 / 2 :: real)" by simp_all
  have o: "1 / 2 = radius rest_a + radius rest_b - 59 / 2"
    by (simp add: rest_a_def rest_b_def)
  have v: "0 = (vx rest_b - vx rest_a) * 1 + (vy rest_b - vy rest_a) * 0"
    by (simp add: rest_a_def rest_b_def)
  have j: "0 = - (1 + COOKIE_RESTITUTION) * 0 / 2" by simp
  show ?thesis
    unfolding resolve_contact_eq[OF d c s n o refl refl v j]
    by (simp add: rest_a_def rest_b_def rest_a_after_def rest_b_after_def)
qed

lemma resolve_rest_after:
  "resolve_circle_collision rest_a_after rest_b_after u
     = Inr (rest_a_after, rest_b_after)"
proof -
  have d: "contact_delta rest_a_after rest_b_after u = (30, 0)"
    by (simp add: contact_delta_def rest_a_def rest_b_def rest_a_after_def rest_b_after_def Let_def)
  show ?thesis
    by (rule resolve_no_contact[OF d]) (simp add: rest_a_def rest_b_def rest_a_after_def rest_b_after_def)
qed

lemma passes_rest:
  "collision_passes [0..<COLLISION_PASSES] rnd [rest_a, rest_b]
     = Inr [rest_a_after, rest_b_after]"
proof -
  have p: "[0..<COLLISION_PASSES] = [0, Suc 0]" by (simp add: COLLISION_PASSES_def upt_rec)
  show ?thesis
    unfolding p by (simp add: index_pairs_2 resolve_rest resolve_rest_after)
qed

lemma passes_rest_after:
  "collision_passes [0..<COLLISION_PASSES] rnd
       [rest_a_after, rest_b_after]
     = Inr [rest_a_after, rest_b_after]"
proof -
  have p: "[0..<COLLISION_PASSES] = [0, Suc 0]" by (simp add: COLLISION_PASSES_def upt_rec)
  show ?thesis
    unfolding p by (simp add: index_pairs_2 resolve_rest_after)
qed

lemma step_rest: "step rest_app dt rnd = Inr rest_app_after"
proof -
  have p: "[0..<SUBSTEPS] = [0, Suc 0]" by (simp add: SUBSTEPS_def upt_rec)
  have i: "integrate_cookie rest_app sub_dt rest_a = rest_a"
      "integrate_cookie rest_app sub_dt rest_b = rest_b"
      "integrate_cookie rest_app sub_dt rest_a_after = rest_a_after"
      "integrate_cookie rest_app sub_dt rest_b_after = rest_b_after"
    for sub_dt
    by (rule integrate_resting; simp add: rest_a_def rest_b_def rest_a_after_def rest_b_after_def)+
  have u: "sleep_update rest_app rest_a_after = rest_a_after"
      "sleep_update rest_app rest_b_after = rest_b_after"
    by (simp_all add: sleep_update_def rest_a_def rest_b_def rest_a_after_def rest_b_after_def)
  show ?thesis
    unfolding step_def Let_def p rest_app_fields(3)
    by (simp add: i passes_rest passes_rest_after u rest_app_after_def)
qed

text \<open>
  Claim C3 (containment), as the code has it. In the bowl of the application, right after
  \<open>collide_cookie\<close> has been applied to a cookie of radius at most 18, the cookie is in the
  funnel zone or its normalised squared distance is at most \<open>1 + 1e-9\<close>; hence so is every
  awake cookie after the integration of a substep. The tolerance is there because the
  arithmetic of the model is exact and that of the program is not: a cookie in the funnel
  zone keeps its height, a cookie inside the shrunk ellipse is left as it is, and a cookie
  outside has its offset from the centre divided by the square root of its normalised
  squared distance, which is a point of the shrunk ellipse. The pairwise passes that follow
  in the same substep are not followed by a boundary collision.
\<close>

theorem containment_after_boundary_collision:
  assumes "collider app = collider App_init" and "radius c \<le> 18"
  shows "contained_within (1 / 10 ^ 9) (collider app) (collide_cookie (collider app) c) \<and>
         (\<not> asleep c \<longrightarrow>
            contained_within (1 / 10 ^ 9) (collider app) (integrate_cookie app sub_dt c)) \<and>
         (pos_y c < rim_y (collider app) - radius c * (6 / 10) \<longrightarrow>
            pos_y (collide_cookie (collider app) c) = pos_y c) \<and>
         (\<not> pos_y c < rim_y (collider app) - radius c * (6 / 10) \<and>
          ellipse_s2 (collider app) c \<le> 1 \<longrightarrow>
            collide_cookie (collider app) c = c) \<and>
         (\<not> pos_y c < rim_y (collider app) - radius c * (6 / 10) \<and>
          1 < ellipse_s2 (collider app) c \<longrightarrow>
            pos_x (collide_cookie (collider app) c) - cx (collider app)
              = (pos_x c - cx (collider app)) / sqrt (ellipse_s2 (collider app) c) \<and>
            pos_y (collide_cookie (collider app) c) - cy (collider app)
              = (pos_y c - cy (collider app)) / sqrt (ellipse_s2 (collider app) c))"
proof -
  have H: "rim_y (collider app) + radius c
             \<le> cy (collider app) - max 5 (axis_b (collider app) - radius c)"
    unfolding assms(1) using assms(2) by (rule app_rim_above)
  note z = collide_cookie_zones[OF H]
  have c1: "contained_within (1 / 10 ^ 9) (collider app) (collide_cookie (collider app) c)"
    using H by (rule collide_contained_within) simp
  have c2: "contained_within (1 / 10 ^ 9) (collider app) (integrate_cookie app sub_dt c)"
    if na: "\<not> asleep c"
  proof -
    obtain c6 where c6: "integrate_cookie app sub_dt c = collide_cookie (collider app) c6"
        "radius c6 = radius c"
      using integrate_cookie_awake[OF na] by blast
    have "rim_y (collider app) + radius c6
             \<le> cy (collider app) - max 5 (axis_b (collider app) - radius c6)"
      using H c6(2) by simp
    then show ?thesis unfolding c6(1) by (rule collide_contained_within) simp
  qed
  show ?thesis using c1 c2 z by blast
qed

theorem containment_after_boundary_collision_witness:
  "contained_within (1 / 10 ^ 9) (collider rest_app)
     (collide_cookie (collider rest_app) rest_b_after) \<and>
   contained_within (1 / 10 ^ 9) (collider rest_app) (integrate_cookie rest_app (1 / 60) demo_cookie) \<and>
   collide_cookie (collider rest_app) rest_b = rest_b"
proof -
  have c: "collider rest_app = collider App_init" by (simp add: rest_app_def)
  have r: "radius rest_b_after \<le> 18" "radius demo_cookie \<le> 18" "radius rest_b \<le> 18"
    by (simp_all add: rest_b_def rest_b_after_def demo_cookie_def)
  have a: "\<not> asleep demo_cookie" by (simp add: demo_cookie_def)
  have i: "\<not> pos_y rest_b < rim_y (collider rest_app) - radius rest_b * (6 / 10) \<and>
           ellipse_s2 (collider rest_app) rest_b \<le> 1"
    by (simp add: c app_collider_fields ellipse_s2_def Let_def rest_b_def)
  show ?thesis
    using containment_after_boundary_collision[OF c r(1), of "1 / 60"]
      containment_after_boundary_collision[OF c r(2), of "1 / 60"]
      containment_after_boundary_collision[OF c r(3), of "1 / 60"] a i
    by blast
qed

text \<open>
  The claim as stated fails at the end of a step: two sleeping cookies that overlap by
  \<open>0.5\<close> next to the wall are pushed apart by the contact resolution, and the outer one
  ends outside the shrunk ellipse, below the funnel zone, with a normalised squared
  distance above \<open>1.001\<close>.
\<close>

theorem containment_after_step_counterexample:
  "list_all (contained (collider rest_app)) (cookies rest_app) \<and>
   list_all sleep_inv (cookies rest_app) \<and>
   step rest_app (1 / 30) (\<lambda>k p i j. 0) = Inr rest_app_after \<and>
   \<not> contained (collider rest_app_after) (cookies rest_app_after ! 1) \<and>
   \<not> contained_within (1 / 1000) (collider rest_app_after) (cookies rest_app_after ! 1)"
proof -
  have c: "collider rest_app_after = collider App_init"
    by (simp add: rest_app_after_def rest_app_fields)
  have "contained (collider App_init) rest_a" "contained (collider App_init) rest_b"
    by (simp_all add: contained_def Let_def app_collider_fields rest_a_def rest_b_def)
  moreover have "\<not> contained (collider App_init) rest_b_after"
    by (simp add: contained_def Let_def app_collider_fields rest_b_def rest_b_after_def)
  moreover have "\<not> contained_within (1 / 1000) (collider App_init) rest_b_after"
    by (simp add: contained_within_def ellipse_s2_def Let_def app_collider_fields rest_b_def
        rest_b_after_def)
  moreover have "list_all sleep_inv (cookies rest_app)"
    by (simp add: rest_app_fields sleep_inv_def rest_a_def rest_b_def)
  ultimately show ?thesis
    by (simp add: step_rest c rest_app_fields rest_app_after_def)
qed

subsection \<open>Reflection at the boundary\<close>

lemma hypot_unit:
  assumes "0 < hypot p q"
  shows "(p / hypot p q)\<^sup>2 + (q / hypot p q)\<^sup>2 = 1"
proof -
  have "0 < p * p + q * q"
    using assms unfolding hypot_def by (simp add: real_sqrt_gt_0_iff)
  then show ?thesis unfolding hypot_def by (rule unit_normal)
qed

lemma reflection_components:
  fixes nx ny v1 v2 e :: real
  assumes n: "nx\<^sup>2 + ny\<^sup>2 = 1"
    and d: "vdotn = v1 * nx + v2 * ny"
    and u: "ux = v1 - (1 + e) * vdotn * nx" "uy = v2 - (1 + e) * vdotn * ny"
  shows "ux * nx + uy * ny = - e * vdotn" and "ux * ny - uy * nx = v1 * ny - v2 * nx"
proof -
  have n': "nx * nx + ny * ny = 1" using n by (simp add: power2_eq_square)
  have "ux * nx + uy * ny = (v1 * nx + v2 * ny) - (1 + e) * vdotn * (nx * nx + ny * ny)"
    unfolding u by (simp add: algebra_simps)
  also have "\<dots> = - e * vdotn" unfolding n' d by (simp add: algebra_simps)
  finally show "ux * nx + uy * ny = - e * vdotn" .
  show "ux * ny - uy * nx = v1 * ny - v2 * nx"
    unfolding u by (simp add: algebra_simps)
qed

lemma hypot_0: "hypot 0 q = \<bar>q\<bar>"
  by (simp add: hypot_def)

lemma sqrt_below: "sqrt (485809 / 478864) = 697 / 692"
  by (rule real_sqrt_unique) (simp_all add: power2_eq_square)

lemma below_bowl_fields:
  "radius below_bowl = 15" "pos_x below_bowl = 3952 / 10" "pos_y below_bowl = 4878 / 10"
  "vx below_bowl = 100" "vy below_bowl = 100"
  by (simp_all add: below_bowl_def)

lemma below_bowl_values:
  "ellipse_s2 (collider App_init) below_bowl = 485809 / 478864"
  "gradient_length (collider App_init) below_bowl = 3485 / 478864"
  "boundary_normal (collider App_init) below_bowl = (0, 1)"
  "reflected_velocity (collider App_init) below_bowl = (100, - 45)"
proof -
  show "ellipse_s2 (collider App_init) below_bowl = 485809 / 478864"
    by (simp add: ellipse_s2_def Let_def app_collider_fields below_bowl_def)
  show "gradient_length (collider App_init) below_bowl = 3485 / 478864"
    by (simp add: gradient_length_def Let_def app_collider_fields below_bowl_def hypot_0)
  show n: "boundary_normal (collider App_init) below_bowl = (0, 1)"
    by (simp add: boundary_normal_def Let_def app_collider_fields below_bowl_def hypot_0)
  show "reflected_velocity (collider App_init) below_bowl = (100, - 45)"
    by (simp add: reflected_velocity_def n BOWL_RESTITUTION_def below_bowl_fields)
qed

lemma collide_below_bowl:
  "collide_cookie (collider App_init) below_bowl
     = below_bowl\<lparr>pos_y := 4868 / 10, vx := 99, vy := - (44775 / 1000)\<rparr>"
proof -
  have a: "1636 / 10 = max 5 (axis_a (collider App_init) - radius below_bowl)"
    and b: "1384 / 10 = max 5 (axis_b (collider App_init) - radius below_bowl)"
    and dx: "0 = pos_x below_bowl - cx (collider App_init)"
    and dy: "1394 / 10 = pos_y below_bowl - cy (collider App_init)"
    by (simp_all add: app_collider_fields below_bowl_def)
  have s2: "(485809 / 478864 :: real)
              = 0 / (1636 / 10) * (0 / (1636 / 10)) + (1394 / 10) / (1384 / 10) * ((1394 / 10) / (1384 / 10))"
    by simp
  have s: "(697 / 692 :: real)
             = (if (485809 / 478864 :: real) > 1 / 10 ^ 12 then sqrt (485809 / 478864) else 1)"
    by (simp add: sqrt_below)
  have nlen: "(3485 / 478864 :: real)
                = hypot (0 / ((1636 / 10) * (1636 / 10))) ((1394 / 10) / ((1384 / 10) * (1384 / 10)))"
    by (simp add: hypot_0)
  have nx: "(0 :: real) = 0 / ((1636 / 10) * (1636 / 10)) / (3485 / 478864)"
    and ny: "(1 :: real) = (1394 / 10) / ((1384 / 10) * (1384 / 10)) / (3485 / 478864)"
    by simp_all
  have v: "100 = vx below_bowl * 0 + vy below_bowl * 1" by (simp add: below_bowl_def)
  show ?thesis
    unfolding collide_cookie_eq[OF a b dx dy s2 s nlen nx ny v]
    by (simp add: app_collider_fields below_bowl_fields BOWL_RESTITUTION_def)
qed

text \<open>
  Claim C5 (boundary reflection), as the code has it. For a cookie below the funnel zone
  and outside the shrunk ellipse, with a gradient of length at least \<open>1e-9\<close>:
  \<open>collide_cookie\<close> divides the offset from the centre by \<open>s\<close>, the square root of the
  normalised squared distance, which puts the centre on the shrunk ellipse (the opening
  clamp then replaces \<open>x\<close> when the new \<open>y\<close> is within one radius below the rim); the
  normalised gradient is a unit vector; the reflection reverses the normal component of
  the velocity and scales it by \<open>BOWL_RESTITUTION\<close>, keeping the tangential component; and
  the result is damped by \<open>0.99\<close> in \<open>vx\<close> and by \<open>0.995\<close> in \<open>vy\<close>.
\<close>

theorem boundary_reflection:
  assumes nofunnel: "\<not> pos_y c < rim_y col - radius c * (6 / 10)"
    and outside: "1 < ellipse_s2 col c"
    and nondeg: "1 / 10 ^ 9 \<le> gradient_length col c"
    and s: "s = sqrt (ellipse_s2 col c)"
    and n: "(nx, ny) = boundary_normal col c"
    and u: "(ux, uy) = reflected_velocity col c"
    and c': "c' = collide_cookie col c"
  shows "0 < s \<and>
         pos_y c' - cy col = (pos_y c - cy col) / s \<and>
         (if pos_y c' < rim_y col + radius c
          then pos_x c' = opening_clamp_x col (cx col + (pos_x c - cx col) / s) (radius c)
          else pos_x c' - cx col = (pos_x c - cx col) / s \<and> ellipse_s2 col c' = 1) \<and>
         ellipse_s2 col (c\<lparr>pos_x := cx col + (pos_x c - cx col) / s,
                             pos_y := cy col + (pos_y c - cy col) / s\<rparr>) = 1 \<and>
         nx\<^sup>2 + ny\<^sup>2 = 1 \<and>
         ux * nx + uy * ny = - BOWL_RESTITUTION * (vx c * nx + vy c * ny) \<and>
         ux * ny - uy * nx = vx c * ny - vy c * nx \<and>
         vx c' = ux * (99 / 100) \<and>
         vy c' = uy * (995 / 1000)"
proof -
  define a where "a = max 5 (axis_a col - radius c)"
  define b where "b = max 5 (axis_b col - radius c)"
  define dx where "dx = pos_x c - cx col"
  define dy where "dy = pos_y c - cy col"
  define s2 where "s2 = dx / a * (dx / a) + dy / b * (dy / b)"
  define s' where "s' = (if s2 > 1 / 10 ^ 12 then sqrt s2 else 1)"
  define nlen where "nlen = hypot (dx / (a * a)) (dy / (b * b))"
  define mx where "mx = dx / (a * a) / nlen"
  define my where "my = dy / (b * b) / nlen"
  define vdotn where "vdotn = vx c * mx + vy c * my"
  note e = collide_cookie_eq[OF a_def b_def dx_def dy_def s2_def s'_def nlen_def mx_def my_def vdotn_def]
  have s2e: "ellipse_s2 col c = s2"
    by (simp add: ellipse_s2_def Let_def s2_def a_def b_def dx_def dy_def)
  have s2p: "1 < s2" using outside s2e by simp
  have ss': "s' = s" using s2p by (simp add: s'_def s s2e)
  have sp: "0 < s" using s2p by (simp add: s s2e)
  have sq: "s * s = s2" using s2p by (simp add: s s2e)
  have ne: "gradient_length col c = nlen"
    by (simp add: gradient_length_def Let_def nlen_def a_def b_def dx_def dy_def)
  have nl: "\<not> nlen < 1 / 10 ^ 9" using nondeg ne by simp
  have nlp: "0 < nlen"
  proof -
    have "(0::real) < 1 / 10 ^ 9" by simp
    then show ?thesis using nl by linarith
  qed
  have nn: "nx = mx" "ny = my"
    using n by (simp_all add: boundary_normal_def Let_def mx_def my_def nlen_def a_def b_def dx_def dy_def)
  have un: "mx\<^sup>2 + my\<^sup>2 = 1"
    unfolding mx_def my_def nlen_def using nlp[unfolded nlen_def] by (rule hypot_unit)
  have uu: "ux = vx c - (1 + BOWL_RESTITUTION) * vdotn * mx"
           "uy = vy c - (1 + BOWL_RESTITUTION) * vdotn * my"
    using u n nn
    by (simp_all add: reflected_velocity_def Let_def vdotn_def split: prod.splits)
  have proj: "(dx / s) / a * ((dx / s) / a) + (dy / s) / b * ((dy / s) / b) = 1"
  proof -
    have "(dx / s) / a * ((dx / s) / a) + (dy / s) / b * ((dy / s) / b)
            = (dx / a * (dx / a) + dy / b * (dy / b)) / (s * s)"
      by (simp add: add_divide_distrib mult.commute mult.left_commute)
    also have "\<dots> = s2 / s2" by (simp only: sq s2_def)
    also have "\<dots> = 1" using s2p by simp
    finally show ?thesis .
  qed
  have py: "pos_y c' = cy col + dy / s" and r: "radius c' = radius c"
    and px: "pos_x c' = (if cy col + dy / s < rim_y col + radius c
                         then opening_clamp_x col (cx col + dx / s) (radius c)
                         else cx col + dx / s)"
    and pv: "vx c' = ux * (99 / 100)" "vy c' = uy * (995 / 1000)"
    unfolding c' e using nofunnel s2p nl by (simp_all add: ss' uu)
  have on: "ellipse_s2 col (c\<lparr>pos_x := cx col + dx / s, pos_y := cy col + dy / s\<rparr>) = 1"
    using proj by (simp add: ellipse_s2_def Let_def a_def b_def)
  have on': "ellipse_s2 col c' = 1" if "\<not> pos_y c' < rim_y col + radius c"
    using that proj px by (simp add: ellipse_s2_def Let_def r py a_def b_def)
  have refl: "ux * mx + uy * my = - BOWL_RESTITUTION * vdotn"
             "ux * my - uy * mx = vx c * my - vy c * mx"
    using reflection_components[OF un vdotn_def uu] by simp_all
  show ?thesis
    using sp py px pv on on' un refl
    by (simp add: nn dx_def dy_def vdotn_def)
qed

theorem boundary_reflection_witness:
  "\<not> pos_y below_bowl < rim_y (collider App_init) - radius below_bowl * (6 / 10) \<and>
   1 < ellipse_s2 (collider App_init) below_bowl \<and>
   1 / 10 ^ 9 \<le> gradient_length (collider App_init) below_bowl \<and>
   pos_y (collide_cookie (collider App_init) below_bowl) - cy (collider App_init)
     = (pos_y below_bowl - cy (collider App_init)) / (697 / 692) \<and>
   ellipse_s2 (collider App_init) (collide_cookie (collider App_init) below_bowl) = 1 \<and>
   vx (collide_cookie (collider App_init) below_bowl) = 100 * (99 / 100) \<and>
   vy (collide_cookie (collider App_init) below_bowl) = - 45 * (995 / 1000)"
proof -
  have f: "\<not> pos_y below_bowl < rim_y (collider App_init) - radius below_bowl * (6 / 10)"
    by (simp add: app_collider_fields below_bowl_fields)
  have o: "1 < ellipse_s2 (collider App_init) below_bowl"
    and g: "1 / 10 ^ 9 \<le> gradient_length (collider App_init) below_bowl"
    by (simp_all add: below_bowl_values)
  have s: "697 / 692 = sqrt (ellipse_s2 (collider App_init) below_bowl)"
    by (simp add: below_bowl_values sqrt_below)
  have r: "\<not> pos_y (collide_cookie (collider App_init) below_bowl)
              < rim_y (collider App_init) + radius below_bowl"
    by (simp add: collide_below_bowl app_collider_fields below_bowl_fields)
  show ?thesis
    using boundary_reflection[OF f o g s below_bowl_values(3)[symmetric]
        below_bowl_values(4)[symmetric] refl] f o g r
    by simp
qed

text \<open>
  The claim as stated has one damping factor for both components. For the cookie below
  the bowl the reflected velocity is \<open>(100, -45)\<close> and the result is
  \<open>(100 * 0.99, -45 * 0.995)\<close>: the two ratios differ.
\<close>

theorem uniform_damping_counterexample:
  "\<not> pos_y below_bowl < rim_y (collider App_init) - radius below_bowl * (6 / 10) \<and>
   1 < ellipse_s2 (collider App_init) below_bowl \<and>
   reflected_velocity (collider App_init) below_bowl = (100, - 45) \<and>
   vx (collide_cookie (collider App_init) below_bowl) = 100 * (99 / 100) \<and>
   vy (collide_cookie (collider App_init) below_bowl) = - 45 * (995 / 1000) \<and>
   vx (collide_cookie (collider App_init) below_bowl) / 100
     \<noteq> vy (collide_cookie (collider App_init) below_bowl) / (- 45)"
  by (simp add: below_bowl_values collide_below_bowl app_collider_fields below_bowl_fields)

subsection \<open>The automatic drop\<close>


















subsection \<open>The Defender feed\<close>
















end
